theory Spec2Isabelle
  imports Complex_Main "HOL-Library.AList"
begin

section \<open>JavaScript numbers\<close>

text \<open>
  A JavaScript number is an IEEE 754 double. The integers the cache works with (times in
  milliseconds, sizes, counters) are kept as integers; they are exact as long as they
  stay below \<open>2\<^sup>5\<^sup>3\<close>. Where the code divides, or adds and multiplies fractions, each
  operation rounds its exact result to the nearest double, ties to the even mantissa.
  A finite double is modelled by the rational number it denotes; infinities and
  \<open>NaN\<close> are not modelled, so the operations are those of JavaScript as long as no
  result reaches \<open>2\<^sup>1\<^sup>0\<^sup>2\<^sup>4\<close> and no divisor is zero.
\<close>

definition pow2 :: "int \<Rightarrow> rat" where
  "pow2 k = (if 0 \<le> k then 2 ^ nat k else 1 / 2 ^ nat (- k))"

text \<open>\<open>ilog2 n\<close> is the integer part of the binary logarithm of \<open>n \<ge> 1\<close>.\<close>

function ilog2 :: "int \<Rightarrow> int" where
  "ilog2 n = (if n < 2 then 0 else 1 + ilog2 (n div 2))"
  by pat_completeness auto
termination
  by (relation "measure nat") auto

declare ilog2.simps [simp del]

text \<open>The binary exponent of a positive rational \<open>x\<close>: \<open>2\<^sup>e \<le> x < 2\<^sup>e\<^sup>+\<^sup>1\<close>.\<close>

definition binary_exponent :: "rat \<Rightarrow> int" where
  "binary_exponent x =
     (if 1 \<le> x then ilog2 \<lfloor>x\<rfloor>
      else - ilog2 (\<lceil>1 / x\<rceil> - 1) - 1)"

definition round_half_even :: "rat \<Rightarrow> int" where
  "round_half_even x =
     (let n = \<lfloor>x\<rfloor>; r = x - of_int n
      in if r < 1 / 2 then n
         else if 1 / 2 < r then n + 1
         else if even n then n else n + 1)"

text \<open>
  The double nearest to \<open>x\<close>: 53 significant bits, and below \<open>2\<^sup>-\<^sup>1\<^sup>0\<^sup>2\<^sup>2\<close> the fixed spacing
  of the subnormal numbers.
\<close>

definition to_double :: "rat \<Rightarrow> rat" where
  "to_double x =
     (if x = 0 then 0
      else let e = max (binary_exponent \<bar>x\<bar>) (- 1022);
               ulp = pow2 (e - 52)
           in sgn x * of_int (round_half_even (\<bar>x\<bar> / ulp)) * ulp)"

text \<open>The arithmetic operators \<^verbatim>\<open>+\<close>, \<^verbatim>\<open>-\<close>, \<^verbatim>\<open>*\<close> and \<^verbatim>\<open>/\<close> on doubles.\<close>

definition dadd :: "rat \<Rightarrow> rat \<Rightarrow> rat" where
  "dadd x y = to_double (x + y)"

definition dsub :: "rat \<Rightarrow> rat \<Rightarrow> rat" where
  "dsub x y = to_double (x - y)"

definition dmul :: "rat \<Rightarrow> rat \<Rightarrow> rat" where
  "dmul x y = to_double (x * y)"

definition ddiv :: "rat \<Rightarrow> rat \<Rightarrow> rat" where
  "ddiv x y = to_double (x / y)"

section \<open>JavaScript values cached by the system\<close>

text \<open>
  The cache stores values of TypeScript type \<open>unknown\<close>. The model keeps the JSON-like
  part of the JavaScript value space: \<open>undefined\<close>, \<open>null\<close>, booleans, integral
  numbers, strings, arrays and plain objects (an object as the list of its own
  properties, in property order). \<open>JNum n\<close> is the number \<open>n\<close>, an integer that a double
  represents (every integer up to \<open>2\<^sup>5\<^sup>3\<close> is one).
\<close>

datatype jsval =
    JUndefined
  | JNull
  | JBool bool
  | JNum int
  | JStr string
  | JArr "jsval list"
  | JObj "(string \<times> jsval) list"

text \<open>JavaScript truthiness, as tested by \<^verbatim>\<open>if (memData)\<close> and \<^verbatim>\<open>if (redisData)\<close>.\<close>

fun truthy :: "jsval \<Rightarrow> bool" where
  "truthy JUndefined = False"
| "truthy JNull = False"
| "truthy (JBool b) = b"
| "truthy (JNum n) = (n \<noteq> 0)"
| "truthy (JStr s) = (s \<noteq> [])"
| "truthy (JArr xs) = True"
| "truthy (JObj kvs) = True"

text \<open>Number of decimal digits of a non-negative integer.\<close>

function dec_len :: "int \<Rightarrow> nat" where
  "dec_len n = (if n < 10 then 1 else Suc (dec_len (n div 10)))"
  by pat_completeness auto
termination
  by (relation "measure nat") auto

declare dec_len.simps [simp del]

text \<open>
  \<^verbatim>\<open>Number.prototype.toString\<close> writes a number of magnitude \<open>10\<^sup>2\<^sup>1\<close> or more in exponent
  notation, with the least number \<open>k\<close> of significant digits such that some \<open>k\<close>-digit
  integer \<open>s\<close> and some \<open>n\<close> make \<open>s \<times> 10\<^sup>n\<^sup>-\<^sup>k\<close> read back as the same double: one digit
  is written \<^verbatim>\<open>de+nn\<close>, more digits \<^verbatim>\<open>d.ddde+nn\<close>. Of the \<open>k\<close>-digit multiples of
  \<open>10\<^sup>n\<^sup>-\<^sup>k\<close> only the two next to \<open>x\<close> can read back as \<open>x\<close>.
\<close>

definition reads_back :: "rat \<Rightarrow> nat \<Rightarrow> nat \<Rightarrow> bool" where
  "reads_back x k n =
     (let unit = 10 ^ (n - k); s = \<lfloor>x / unit\<rfloor>
      in (10 ^ (k - 1) \<le> s \<and> s < 10 ^ k \<and> to_double (of_int s * unit) = x)
         \<or> (10 ^ (k - 1) \<le> s + 1 \<and> s + 1 < 10 ^ k \<and> to_double (of_int (s + 1) * unit) = x))"

fun shortest_digits :: "rat \<Rightarrow> nat \<Rightarrow> nat \<Rightarrow> nat \<Rightarrow> nat" where
  "shortest_digits x n k 0 = k"
| "shortest_digits x n k (Suc fuel) =
     (if reads_back x k n then k else shortest_digits x n (Suc k) fuel)"

text \<open>
  The length of the exponent notation of a double \<open>x \<ge> 10\<^sup>2\<^sup>1\<close> with \<open>d\<close> integer digits.
  Either \<open>10\<^sup>d\<close> itself reads back as \<open>x\<close> (then the text is \<^verbatim>\<open>1e+d\<close>), or the digits
  are those of a number of \<open>d\<close> integer digits; seventeen digits always suffice.
\<close>

definition exponent_len :: "rat \<Rightarrow> nat" where
  "exponent_len x =
     (let d = dec_len \<lfloor>x\<rfloor>
      in if to_double (10 ^ d) = x then 3 + dec_len (int d)
         else let k = shortest_digits x d 1 16
              in (if k = 1 then 1 else k + 1) + 2 + dec_len (int d - 1))"

text \<open>The length of the text of the number \<open>n\<close>.\<close>

definition number_len :: "int \<Rightarrow> nat" where
  "number_len n =
     (if n < 0 then 1 else 0)
     + (if \<bar>n\<bar> < 10 ^ 21 then dec_len \<bar>n\<bar> else exponent_len (to_double (of_int \<bar>n\<bar>)))"

text \<open>
  Length contributed by one character inside a JSON string literal: the quote and the
  backslash and the five short escapes take two characters, other control characters
  take six (\<^verbatim>\<open>\u00XX\<close>), everything else one.
\<close>

definition esc_len :: "char \<Rightarrow> nat" where
  "esc_len c =
     (let n = of_char c :: nat in
      if n = 34 \<or> n = 92 then 2
      else if n = 8 \<or> n = 9 \<or> n = 10 \<or> n = 12 \<or> n = 13 then 2
      else if n < 32 then 6
      else 1)"

definition quoted_len :: "string \<Rightarrow> nat" where
  "quoted_len s = 2 + sum_list (map esc_len s)"

text \<open>
  Length of \<^verbatim>\<open>JSON.stringify(v)\<close> for a value that serialises. Inside an array
  \<open>undefined\<close> is written \<^verbatim>\<open>null\<close>; inside an object a property whose value is
  \<open>undefined\<close> is left out.
\<close>

fun json_len :: "jsval \<Rightarrow> nat" where
  "json_len JUndefined = 4"
| "json_len JNull = 4"
| "json_len (JBool b) = (if b then 4 else 5)"
| "json_len (JNum n) = number_len n"
| "json_len (JStr s) = quoted_len s"
| "json_len (JArr xs) = 2 + sum_list (map json_len xs) + (length xs - 1)"
| "json_len (JObj kvs) =
     (let ps = filter (\<lambda>kv. snd kv \<noteq> JUndefined) kvs
      in 2 + sum_list (map (\<lambda>kv. quoted_len (fst kv) + 1 + json_len (snd kv)) ps)
           + (length ps - 1))"

text \<open>
  \<^verbatim>\<open>estimateSize\<close>: twice the length of the JSON text; \<^verbatim>\<open>JSON.stringify(undefined)\<close>
  is \<open>undefined\<close>, reading its \<^verbatim>\<open>length\<close> throws, and the handler returns 1024.
\<close>

definition estimateSize :: "jsval \<Rightarrow> int" where
  "estimateSize v = (if v = JUndefined then 1024 else int (json_len v) * 2)"

section \<open>Configuration\<close>

text \<open>
  The fields of \<^verbatim>\<open>CACHE_CONFIG\<close> that the cache components read. The configuration
  is fixed when the module is loaded, so every operation takes it as a parameter.
\<close>

record config =
  ENABLE_MEMORY :: bool
  ENABLE_REDIS :: bool
  ENABLE_CIRCUIT_BREAKER :: bool
  CIRCUIT_FAILURE_THRESHOLD :: int
  CIRCUIT_RESET_TIMEOUT :: int
  REDIS_TIMEOUT :: int
  MEMORY_SIZE :: int
  MEMORY_TTL_MAX :: int
  TRAFFIC_THRESHOLD :: int
  DEFAULT_TTL :: int
  ENABLE_METRICS :: bool
  ENABLE_TRAFFIC_DETECTION :: bool
  MAX_VALUE_SIZE :: int
  WINDOW_MS :: int
  TRACKER_CLEANUP_MS :: int

datatype cache_mode = HYBRID | MEMORY_ONLY | REDIS_ONLY | DISABLED

definition CACHE_MODE :: "config \<Rightarrow> cache_mode" where
  "CACHE_MODE cfg =
     (if ENABLE_REDIS cfg \<and> ENABLE_MEMORY cfg then HYBRID
      else if ENABLE_MEMORY cfg \<and> \<not> ENABLE_REDIS cfg then MEMORY_ONLY
      else if \<not> ENABLE_MEMORY cfg \<and> ENABLE_REDIS cfg then REDIS_ONLY
      else DISABLED)"

section \<open>The memory cache (ProductionMemoryCache)\<close>

text \<open>
  The JavaScript \<^verbatim>\<open>Map\<close> is an association list in insertion order: \<^verbatim>\<open>Map.set\<close>
  overwrites in place or appends (\<^const>\<open>AList.update\<close>), \<^verbatim>\<open>Map.delete\<close> removes the
  key (\<^const>\<open>AList.delete\<close>), iteration follows the list. Times are milliseconds as
  returned by \<^verbatim>\<open>Date.now()\<close>; one synchronous method call reads one time \<open>now\<close>.
\<close>

record CacheItem =
  data :: jsval
  expires :: int
  lastAccess :: int
  hitCount :: int
  size_bytes :: int
  createdAt :: int

record ProductionMemoryCache =
  cache :: "(string \<times> CacheItem) list"
  totalSize :: int
  lastCleanup :: int

definition MAX_SAFE_INTEGER :: rat where
  "MAX_SAFE_INTEGER = 9007199254740991"

definition mem_delete :: "string \<Rightarrow> ProductionMemoryCache \<Rightarrow> bool \<times> ProductionMemoryCache" where
  "mem_delete key m =
     (case map_of (cache m) key of
        Some item \<Rightarrow>
          (True, m\<lparr>cache := AList.delete key (cache m),
                   totalSize := totalSize m - size_bytes item\<rparr>)
      | None \<Rightarrow> (False, m))"

definition mem_clear :: "ProductionMemoryCache \<Rightarrow> ProductionMemoryCache" where
  "mem_clear m = m\<lparr>cache := [], totalSize := 0\<rparr>"

definition mem_size :: "ProductionMemoryCache \<Rightarrow> nat" where
  "mem_size m = length (cache m)"

text \<open>
  The eviction score of an entry at time \<open>now\<close>:
  \<^verbatim>\<open>(timeSinceAccess / 1000) + (age / 10000) + sizePenalty - (accessFrequency * 100)\<close>,
  every operation in double arithmetic, the sum taken from left to right.
\<close>

definition score :: "int \<Rightarrow> CacheItem \<Rightarrow> rat" where
  "score now item =
     (let age = dsub (of_int now) (of_int (createdAt item));
          timeSinceAccess = dsub (of_int now) (of_int (lastAccess item));
          accessFrequency = of_int (hitCount item);
          sizePenalty = ddiv (of_int (size_bytes item)) 1024
      in dsub (dadd (dadd (ddiv timeSinceAccess 1000) (ddiv age 10000)) sizePenalty)
              (dmul accessFrequency 100))"

text \<open>One iteration of the scan in \<^verbatim>\<open>evictLRU\<close>; the state is \<open>(evictKey, lowestScore)\<close>.\<close>

definition scan_step :: "int \<Rightarrow> string \<times> CacheItem \<Rightarrow> string \<times> rat \<Rightarrow> string \<times> rat" where
  "scan_step now entry acc =
     (if score now (snd entry) < snd acc then (fst entry, score now (snd entry)) else acc)"

definition scan :: "int \<Rightarrow> (string \<times> CacheItem) list \<Rightarrow> string \<times> rat" where
  "scan now entries = fold (scan_step now) entries ([], MAX_SAFE_INTEGER)"

text \<open>
  \<^verbatim>\<open>evictLRU\<close>: the scan starts from \<^verbatim>\<open>evictKey = ''\<close> and the final test
  \<^verbatim>\<open>if (evictKey)\<close> is a truthiness test, so an empty key counts as no key.
\<close>

definition evictLRU :: "int \<Rightarrow> ProductionMemoryCache \<Rightarrow> bool \<times> ProductionMemoryCache" where
  "evictLRU now m =
     (if length (cache m) = 0 then (False, m)
      else let evictKey = fst (scan now (cache m))
           in if evictKey \<noteq> [] then (True, snd (mem_delete evictKey m)) else (False, m))"

definition cleanupExpired :: "int \<Rightarrow> ProductionMemoryCache \<Rightarrow> ProductionMemoryCache" where
  "cleanupExpired now m =
     (if now - lastCleanup m < 10000 then m
      else let expiredKeys = map fst (filter (\<lambda>entry. now > expires (snd entry)) (cache m))
           in (fold (\<lambda>key acc. snd (mem_delete key acc)) expiredKeys m)\<lparr>lastCleanup := now\<rparr>)"

lemma mem_delete_length:
  "length (cache (snd (mem_delete key m))) \<le> length (cache m)"
  by (simp add: mem_delete_def AList.delete_eq split: option.split)

lemma mem_delete_length_less:
  assumes "key \<in> fst ` set (cache m)"
  shows "length (cache (snd (mem_delete key m))) < length (cache m)"
proof -
  obtain item where "map_of (cache m) key = Some item"
    using assms by (metis domD dom_map_of_conv_image_fst)
  moreover have "length (AList.delete key (cache m)) < length (cache m)"
    unfolding AList.delete_eq using assms
    by (intro length_filter_less[where x = "(key, SOME i. (key, i) \<in> set (cache m))"])
       (auto intro: someI)
  ultimately show ?thesis by (simp add: mem_delete_def)
qed

lemma scan_step_key:
  "fst (fold (scan_step now) entries acc) = fst acc
   \<or> fst (fold (scan_step now) entries acc) \<in> fst ` set entries"
  by (induction entries arbitrary: acc) (fastforce simp: scan_step_def)+

lemma evictLRU_length_less:
  assumes "evictLRU now m = (True, m')"
  shows "length (cache m') < length (cache m)"
proof -
  let ?k = "fst (scan now (cache m))"
  from assms have k: "?k \<noteq> []" and m': "m' = snd (mem_delete ?k m)"
    by (auto simp: evictLRU_def Let_def split: if_splits)
  from scan_step_key[of now "cache m" "([], MAX_SAFE_INTEGER)"] k
  have "?k \<in> fst ` set (cache m)" by (simp add: scan_def)
  then show ?thesis unfolding m' by (rule mem_delete_length_less)
qed

text \<open>
  The loop \<^verbatim>\<open>while (this.cache.size >= MEMORY_SIZE) { if (!this.evictLRU()) break; }\<close>.
  Every successful eviction removes an entry, so the loop ends.
\<close>

function make_room :: "config \<Rightarrow> int \<Rightarrow> ProductionMemoryCache \<Rightarrow> ProductionMemoryCache" where
  "make_room cfg now m =
     (if int (length (cache m)) \<ge> MEMORY_SIZE cfg
      then (if fst (evictLRU now m) then make_room cfg now (snd (evictLRU now m)) else m)
      else m)"
  by pat_completeness auto
termination
proof (relation "measure (\<lambda>(cfg, now, m). length (cache m))")
  show "wf (measure (\<lambda>(cfg, now, m). length (cache m)))" by simp
next
  fix cfg :: config and now :: int and m :: ProductionMemoryCache
  assume "fst (evictLRU now m)"
  then have "evictLRU now m = (True, snd (evictLRU now m))"
    by (cases "evictLRU now m") simp
  then have "length (cache (snd (evictLRU now m))) < length (cache m)"
    by (rule evictLRU_length_less)
  then show "((cfg, now, snd (evictLRU now m)), (cfg, now, m))
               \<in> measure (\<lambda>(cfg, now, m). length (cache m))"
    by simp
qed

declare make_room.simps [simp del]

text \<open>
  \<^verbatim>\<open>set\<close>. The \<^verbatim>\<open>try\<close> block cannot throw in the model (the only throwing call,
  \<^verbatim>\<open>JSON.stringify\<close>, is handled inside \<^verbatim>\<open>estimateSize\<close>).
\<close>

definition mem_set ::
  "config \<Rightarrow> int \<Rightarrow> string \<Rightarrow> jsval \<Rightarrow> int \<Rightarrow> ProductionMemoryCache \<Rightarrow> bool \<times> ProductionMemoryCache" where
  "mem_set cfg now key dat ttlSeconds m =
     (let dataSize = estimateSize dat in
      if dataSize > MAX_VALUE_SIZE cfg then (False, m)
      else
        let m1 = cleanupExpired now m;
            m2 = make_room cfg now m1;
            item = \<lparr>data = dat,
                    expires = now + min ttlSeconds (MEMORY_TTL_MAX cfg) * 1000,
                    lastAccess = now,
                    hitCount = 1,
                    size_bytes = dataSize,
                    createdAt = now\<rparr>;
            m3 = (case map_of (cache m2) key of
                    Some existingItem \<Rightarrow> m2\<lparr>totalSize := totalSize m2 - size_bytes existingItem\<rparr>
                  | None \<Rightarrow> m2)
        in (True, m3\<lparr>cache := AList.update key item (cache m3),
                      totalSize := totalSize m3 + dataSize\<rparr>))"

text \<open>The entry that \<^verbatim>\<open>set\<close> stores, as a function of its arguments.\<close>

definition new_item :: "config \<Rightarrow> int \<Rightarrow> jsval \<Rightarrow> int \<Rightarrow> CacheItem" where
  "new_item cfg now dat ttlSeconds =
     \<lparr>data = dat,
      expires = now + min ttlSeconds (MEMORY_TTL_MAX cfg) * 1000,
      lastAccess = now,
      hitCount = 1,
      size_bytes = estimateSize dat,
      createdAt = now\<rparr>"

text \<open>\<^verbatim>\<open>get\<close> returns \<open>null\<close> for a missing or expired entry.\<close>

definition mem_get :: "int \<Rightarrow> string \<Rightarrow> ProductionMemoryCache \<Rightarrow> jsval \<times> ProductionMemoryCache" where
  "mem_get now key m =
     (case map_of (cache m) key of
        None \<Rightarrow> (JNull, m)
      | Some item \<Rightarrow>
          if now > expires item then (JNull, snd (mem_delete key m))
          else (data item,
                m\<lparr>cache := AList.update key
                     (item\<lparr>lastAccess := now, hitCount := hitCount item + 1\<rparr>) (cache m)\<rparr>))"

section \<open>The traffic tracker (ProductionTrafficTracker)\<close>

record TrafficData =
  timestamps :: "int list"
  lastCleanup_td :: int
  totalRequests :: int

record ProductionTrafficTracker =
  requests :: "(string \<times> TrafficData) list"
  lastGlobalCleanup :: int

definition in_window :: "config \<Rightarrow> int \<Rightarrow> int list \<Rightarrow> int list" where
  "in_window cfg now ts = filter (\<lambda>time. now - time < WINDOW_MS cfg) ts"

definition cleanupEndpoint :: "config \<Rightarrow> int \<Rightarrow> TrafficData \<Rightarrow> TrafficData" where
  "cleanupEndpoint cfg now d = d\<lparr>timestamps := in_window cfg now (timestamps d)\<rparr>"

definition inactive :: "config \<Rightarrow> int \<Rightarrow> TrafficData \<Rightarrow> bool" where
  "inactive cfg now d =
     (length (timestamps d) = 0
      \<or> (length (timestamps d) > 0 \<and> now - last (timestamps d) > TRACKER_CLEANUP_MS cfg))"

definition globalCleanup ::
  "config \<Rightarrow> int \<Rightarrow> (string \<times> TrafficData) list \<Rightarrow> (string \<times> TrafficData) list" where
  "globalCleanup cfg now reqs =
     (let inactiveKeys = map fst (filter (\<lambda>entry. inactive cfg now (snd entry)) reqs)
      in fold AList.delete inactiveKeys reqs)"

text \<open>
  \<^verbatim>\<open>track\<close>. The source mutates the \<^verbatim>\<open>TrafficData\<close> object that the map refers
  to. The global cleanup may delete the key from the map in between; the later
  mutations then change an object the map no longer holds, so they reach the map only
  if the key is still present.
\<close>

definition track ::
  "config \<Rightarrow> int \<Rightarrow> string \<Rightarrow> ProductionTrafficTracker \<Rightarrow> nat \<times> ProductionTrafficTracker" where
  "track cfg now key tr =
     (let fresh = \<lparr>timestamps = [], lastCleanup_td = now, totalRequests = 0\<rparr>;
          (data0, reqs1) =
            (case map_of (requests tr) key of
               Some d \<Rightarrow> (d, requests tr)
             | None \<Rightarrow> (fresh, AList.update key fresh (requests tr)));
          data1 =
            (if now - lastCleanup_td data0 > TRACKER_CLEANUP_MS cfg
             then (cleanupEndpoint cfg now data0)\<lparr>lastCleanup_td := now\<rparr>
             else data0);
          reqs2 = AList.update key data1 reqs1;
          (reqs3, lgc) =
            (if now - lastGlobalCleanup tr > TRACKER_CLEANUP_MS cfg * 2
             then (globalCleanup cfg now reqs2, now)
             else (reqs2, lastGlobalCleanup tr));
          data2 = data1\<lparr>timestamps := in_window cfg now (timestamps data1) @ [now],
                        totalRequests := totalRequests data1 + 1\<rparr>;
          reqs4 = (if map_of reqs3 key = None then reqs3 else AList.update key data2 reqs3)
      in (length (timestamps data2), tr\<lparr>requests := reqs4, lastGlobalCleanup := lgc\<rparr>))"

text \<open>
  \<^verbatim>\<open>isHighTraffic\<close>: \<^verbatim>\<open>customThreshold || TRAFFIC_THRESHOLD\<close> replaces a missing or
  zero custom threshold by the configured one.
\<close>

definition effective_threshold :: "config \<Rightarrow> int option \<Rightarrow> int" where
  "effective_threshold cfg customThreshold =
     (case customThreshold of
        Some t \<Rightarrow> if t \<noteq> 0 then t else TRAFFIC_THRESHOLD cfg
      | None \<Rightarrow> TRAFFIC_THRESHOLD cfg)"

definition isHighTraffic ::
  "config \<Rightarrow> int \<Rightarrow> string \<Rightarrow> int option \<Rightarrow> ProductionTrafficTracker
     \<Rightarrow> bool \<times> ProductionTrafficTracker" where
  "isHighTraffic cfg now key customThreshold tr =
     (let (count, tr') = track cfg now key tr;
          threshold = effective_threshold cfg customThreshold
      in (int count \<ge> threshold, tr'))"

definition getCurrentCount :: "config \<Rightarrow> int \<Rightarrow> string \<Rightarrow> ProductionTrafficTracker \<Rightarrow> nat" where
  "getCurrentCount cfg now key tr =
     (case map_of (requests tr) key of
        None \<Rightarrow> 0
      | Some d \<Rightarrow> length (in_window cfg now (timestamps d)))"

section \<open>Performance metrics (PerformanceMetrics)\<close>

record PerformanceMetrics =
  hits :: int
  misses :: int
  errors :: int
  totalRequests_pm :: int
  avgResponseTime_pm :: rat
  lastReset :: int
  responseTimes :: "int list"

text \<open>
  \<^verbatim>\<open>recordResponseTime\<close>: the average is
  \<^verbatim>\<open>responseTimes.reduce((a, b) => a + b, 0) / responseTimes.length\<close> in double arithmetic.
\<close>

definition recordResponseTime :: "int \<Rightarrow> PerformanceMetrics \<Rightarrow> PerformanceMetrics" where
  "recordResponseTime time pm =
     (let pushed = responseTimes pm @ [time];
          kept = (if length pushed > 1000 then drop (length pushed - 1000) pushed else pushed)
      in pm\<lparr>responseTimes := kept,
             avgResponseTime_pm :=
               ddiv (foldl (\<lambda>a b. dadd a (of_int b)) 0 kept) (of_nat (length kept))\<rparr>)"

definition recordHit :: "config \<Rightarrow> int \<Rightarrow> PerformanceMetrics \<Rightarrow> PerformanceMetrics" where
  "recordHit cfg responseTime pm =
     (if \<not> ENABLE_METRICS cfg then pm
      else recordResponseTime responseTime
             (pm\<lparr>hits := hits pm + 1, totalRequests_pm := totalRequests_pm pm + 1\<rparr>))"

definition recordMiss :: "config \<Rightarrow> int \<Rightarrow> PerformanceMetrics \<Rightarrow> PerformanceMetrics" where
  "recordMiss cfg responseTime pm =
     (if \<not> ENABLE_METRICS cfg then pm
      else recordResponseTime responseTime
             (pm\<lparr>misses := misses pm + 1, totalRequests_pm := totalRequests_pm pm + 1\<rparr>))"

definition recordError :: "config \<Rightarrow> PerformanceMetrics \<Rightarrow> PerformanceMetrics" where
  "recordError cfg pm =
     (if \<not> ENABLE_METRICS cfg then pm
      else pm\<lparr>errors := errors pm + 1, totalRequests_pm := totalRequests_pm pm + 1\<rparr>)"

section \<open>The remote service and the clock\<close>

text \<open>
  The remote key-value service is outside the program. The model records every request
  the client sends (\<open>sent\<close>) and takes the service's behaviour as a script: the \<open>n\<close>-th
  request is answered by \<open>net n\<close>, which resolves with a value after some milliseconds,
  rejects after some milliseconds, or never settles. The clock is what \<^verbatim>\<open>Date.now()\<close>
  returns; awaiting advances it.
\<close>

datatype command =
    GET string
  | SETEX string int jsval
  | DEL string
  | EXISTS string
  | TTL string
  | KEYS string

datatype net_outcome = Resolves nat jsval | Rejects nat | Hangs

record io =
  clock :: int
  net :: "nat \<Rightarrow> net_outcome"
  sent :: "command list"

datatype settled = Fulfilled jsval | Rejected

definition advance :: "nat \<Rightarrow> io \<Rightarrow> io" where
  "advance d s = s\<lparr>clock := clock s + int d\<rparr>"

definition send :: "command \<Rightarrow> io \<Rightarrow> net_outcome \<times> io" where
  "send cmd s = (net s (length (sent s)), s\<lparr>sent := sent s @ [cmd]\<rparr>)"

text \<open>
  \<^verbatim>\<open>await Promise.race([call, timeoutPromise])\<close>: the remote call is issued first and
  the timer of \<open>timeout\<close> milliseconds is created after it, so the call wins if it
  settles no later than the millisecond in which the timer is due; otherwise the race
  rejects when the timer fires.
\<close>

definition await_race :: "int \<Rightarrow> net_outcome \<Rightarrow> io \<Rightarrow> settled \<times> io" where
  "await_race timeout outcome s =
     (let delay = nat timeout in
      case outcome of
        Resolves d v \<Rightarrow> if d \<le> delay then (Fulfilled v, advance d s) else (Rejected, advance delay s)
      | Rejects d \<Rightarrow> if d \<le> delay then (Rejected, advance d s) else (Rejected, advance delay s)
      | Hangs \<Rightarrow> (Rejected, advance delay s))"

text \<open>\<^verbatim>\<open>await call\<close> without a timer: a call that never settles never returns.\<close>

definition await_plain :: "net_outcome \<Rightarrow> io \<Rightarrow> (settled \<times> io) option" where
  "await_plain outcome s =
     (case outcome of
        Resolves d v \<Rightarrow> Some (Fulfilled v, advance d s)
      | Rejects d \<Rightarrow> Some (Rejected, advance d s)
      | Hangs \<Rightarrow> None)"

section \<open>The resilient Redis client (ResilientRedis)\<close>

record OperationMetrics =
  totalOperations :: int
  successfulOperations :: int
  failedOperations :: int
  avgResponseTime :: rat
  lastOperationTime :: int

text \<open>
  \<open>redis_present\<close> stands for \<^verbatim>\<open>this.redis !== null\<close>. Connection set-up, the
  reconnection timer and the periodic health check run outside the six operations and
  are not part of the model.
\<close>

record ResilientRedis =
  redis_present :: bool
  isConnected :: bool
  circuitOpen :: bool
  failureCount :: int
  lastFailure :: int
  connectionAttempts :: int
  lastConnectionAttempt :: int
  redisAvailable :: bool
  operationMetrics :: OperationMetrics

definition isAvailable :: "config \<Rightarrow> int \<Rightarrow> ResilientRedis \<Rightarrow> bool \<times> ResilientRedis" where
  "isAvailable cfg now rc =
     (if \<not> redisAvailable rc \<or> \<not> redis_present rc then (False, rc)
      else if \<not> ENABLE_CIRCUIT_BREAKER cfg then (True, rc)
      else if circuitOpen rc then
        (if now - lastFailure rc < CIRCUIT_RESET_TIMEOUT cfg then (False, rc)
         else (True, rc\<lparr>circuitOpen := False, failureCount := max 0 (failureCount rc - 1)\<rparr>))
      else (True, rc))"

definition recordFailure :: "config \<Rightarrow> int \<Rightarrow> ResilientRedis \<Rightarrow> ResilientRedis" where
  "recordFailure cfg now rc =
     (let rc1 = rc\<lparr>failureCount := failureCount rc + 1, lastFailure := now\<rparr>
      in if failureCount rc1 \<ge> CIRCUIT_FAILURE_THRESHOLD cfg
         then rc1\<lparr>circuitOpen := True, isConnected := False\<rparr>
         else rc1)"

definition resetCircuit :: "ResilientRedis \<Rightarrow> ResilientRedis" where
  "resetCircuit rc =
     (if failureCount rc > 0 \<or> circuitOpen rc
      then rc\<lparr>failureCount := 0, circuitOpen := False, isConnected := True\<rparr>
      else rc)"

definition recordSuccessfulOperation :: "int \<Rightarrow> int \<Rightarrow> ResilientRedis \<Rightarrow> ResilientRedis" where
  "recordSuccessfulOperation startTime now rc =
     (let om = operationMetrics rc;
          n = successfulOperations om + 1;
          responseTime = now - startTime
      in rc\<lparr>operationMetrics :=
               om\<lparr>successfulOperations := n,
                   lastOperationTime := responseTime,
                   avgResponseTime :=
                     ddiv (dadd (dmul (avgResponseTime om) (of_int (n - 1))) (of_int responseTime))
                       (of_int n)\<rparr>\<rparr>)"

definition recordFailedOperation :: "int \<Rightarrow> int \<Rightarrow> ResilientRedis \<Rightarrow> ResilientRedis" where
  "recordFailedOperation startTime now rc =
     (let om = operationMetrics rc
      in rc\<lparr>operationMetrics :=
               om\<lparr>failedOperations := failedOperations om + 1,
                   lastOperationTime := now - startTime\<rparr>\<rparr>)"

definition count_operation :: "ResilientRedis \<Rightarrow> ResilientRedis" where
  "count_operation rc =
     rc\<lparr>operationMetrics :=
          (operationMetrics rc)\<lparr>totalOperations := totalOperations (operationMetrics rc) + 1\<rparr>\<rparr>"

definition redis_get ::
  "config \<Rightarrow> string \<Rightarrow> ResilientRedis \<times> io \<Rightarrow> jsval \<times> ResilientRedis \<times> io" where
  "redis_get cfg key st =
     (let (rc, s) = st;
          (available, rc1) = isAvailable cfg (clock s) rc
      in if \<not> available then (JNull, rc1, s)
         else
           let startTime = clock s;
               rc2 = count_operation rc1;
               (outcome, s1) = send (GET key) s;
               (res, s2) = await_race (REDIS_TIMEOUT cfg) outcome s1
           in case res of
                Fulfilled result \<Rightarrow> (result, recordSuccessfulOperation startTime (clock s2) rc2, s2)
              | Rejected \<Rightarrow>
                  (JNull,
                   recordFailure cfg (clock s2) (recordFailedOperation startTime (clock s2) rc2),
                   s2))"

definition redis_setex ::
  "config \<Rightarrow> string \<Rightarrow> int \<Rightarrow> jsval \<Rightarrow> ResilientRedis \<times> io \<Rightarrow> bool \<times> ResilientRedis \<times> io" where
  "redis_setex cfg key ttlSeconds dat st =
     (let (rc, s) = st;
          (available, rc1) = isAvailable cfg (clock s) rc
      in if \<not> available then (False, rc1, s)
         else
           let (outcome, s1) = send (SETEX key ttlSeconds dat) s;
               (res, s2) = await_race (REDIS_TIMEOUT cfg) outcome s1
           in case res of
                Fulfilled result \<Rightarrow> (True, resetCircuit rc1, s2)
              | Rejected \<Rightarrow> (False, recordFailure cfg (clock s2) rc1, s2))"

definition redis_del ::
  "config \<Rightarrow> string \<Rightarrow> ResilientRedis \<times> io \<Rightarrow> (bool \<times> ResilientRedis \<times> io) option" where
  "redis_del cfg key st =
     (let (rc, s) = st;
          (available, rc1) = isAvailable cfg (clock s) rc
      in if \<not> available then Some (False, rc1, s)
         else
           let (outcome, s1) = send (DEL key) s
           in case await_plain outcome s1 of
                None \<Rightarrow> None
              | Some (Fulfilled result, s2) \<Rightarrow> Some (True, resetCircuit rc1, s2)
              | Some (Rejected, s2) \<Rightarrow> Some (False, recordFailure cfg (clock s2) rc1, s2))"

definition redis_exists ::
  "config \<Rightarrow> string \<Rightarrow> ResilientRedis \<times> io \<Rightarrow> (bool \<times> ResilientRedis \<times> io) option" where
  "redis_exists cfg key st =
     (let (rc, s) = st;
          (available, rc1) = isAvailable cfg (clock s) rc
      in if \<not> available then Some (False, rc1, s)
         else
           let (outcome, s1) = send (EXISTS key) s
           in case await_plain outcome s1 of
                None \<Rightarrow> None
              | Some (Fulfilled result, s2) \<Rightarrow> Some (result = JNum 1, rc1, s2)
              | Some (Rejected, s2) \<Rightarrow> Some (False, recordFailure cfg (clock s2) rc1, s2))"

definition redis_ttl ::
  "config \<Rightarrow> string \<Rightarrow> ResilientRedis \<times> io \<Rightarrow> (int \<times> ResilientRedis \<times> io) option" where
  "redis_ttl cfg key st =
     (let (rc, s) = st;
          (available, rc1) = isAvailable cfg (clock s) rc
      in if \<not> available then Some (- 1, rc1, s)
         else
           let (outcome, s1) = send (TTL key) s
           in case await_plain outcome s1 of
                None \<Rightarrow> None
              | Some (Fulfilled result, s2) \<Rightarrow>
                  Some ((case result of JNum n \<Rightarrow> n | _ \<Rightarrow> - 1), rc1, s2)
              | Some (Rejected, s2) \<Rightarrow> Some (- 1, recordFailure cfg (clock s2) rc1, s2))"

definition redis_keys ::
  "config \<Rightarrow> string \<Rightarrow> ResilientRedis \<times> io \<Rightarrow> (jsval list \<times> ResilientRedis \<times> io) option" where
  "redis_keys cfg pattern st =
     (let (rc, s) = st;
          (available, rc1) = isAvailable cfg (clock s) rc
      in if \<not> available then Some ([], rc1, s)
         else
           let (outcome, s1) = send (KEYS pattern) s
           in case await_plain outcome s1 of
                None \<Rightarrow> None
              | Some (Fulfilled result, s2) \<Rightarrow>
                  Some ((case result of JArr xs \<Rightarrow> xs | _ \<Rightarrow> []), rc1, s2)
              | Some (Rejected, s2) \<Rightarrow> Some ([], recordFailure cfg (clock s2) rc1, s2))"

section \<open>The orchestrator (ProductionEZCache)\<close>

text \<open>
  The state of one orchestrator, together with the world it runs in: its four
  components (each absent when its feature is disabled), the clock and the remote
  service, and the number of times the producer has been invoked so far.
\<close>

record world =
  memory :: "ProductionMemoryCache option"
  traffic :: "ProductionTrafficTracker option"
  redis :: "ResilientRedis option"
  metrics :: "PerformanceMetrics option"
  wio :: io
  pcalls :: nat

text \<open>
  A producer (the caller's \<^verbatim>\<open>fetcher\<close>): its \<open>n\<close>-th invocation takes some
  milliseconds and then either throws an error (\<open>Inl\<close>, with the error message) or
  returns a value (\<open>Inr\<close>).
\<close>

type_synonym producer = "nat \<Rightarrow> nat \<times> (string + jsval)"

definition call_fetcher :: "producer \<Rightarrow> world \<Rightarrow> (string + jsval) \<times> world" where
  "call_fetcher fetcher w =
     (let (d, r) = fetcher (pcalls w)
      in (r, w\<lparr>pcalls := Suc (pcalls w), wio := advance d (wio w)\<rparr>))"

text \<open>The third argument of \<^verbatim>\<open>fetch\<close>: nothing, a number, or an options object.\<close>

datatype fetch_options =
    NoOptions
  | TtlNumber int
  | OptionsObject "int option" "int option" "bool option"

record CacheOptions =
  ttl :: int
  minTrafficCount :: int
  forceCaching :: bool

text \<open>
  \<^verbatim>\<open>getSmartTrafficThreshold\<close>: \<^verbatim>\<open>Math.floor(TRAFFIC_THRESHOLD * 0.1)\<close> and
  \<^verbatim>\<open>Math.floor(TRAFFIC_THRESHOLD * 0.3)\<close>, the literals being the doubles nearest to
  one tenth and three tenths.
\<close>

definition getSmartTrafficThreshold :: "config \<Rightarrow> int \<Rightarrow> int" where
  "getSmartTrafficThreshold cfg t =
     (if t \<le> 60
      then max 3 \<lfloor>dmul (of_int (TRAFFIC_THRESHOLD cfg)) (to_double (1 / 10))\<rfloor>
      else if t \<le> 600
      then max 10 \<lfloor>dmul (of_int (TRAFFIC_THRESHOLD cfg)) (to_double (3 / 10))\<rfloor>
      else TRAFFIC_THRESHOLD cfg)"

definition parse_options :: "config \<Rightarrow> fetch_options \<Rightarrow> CacheOptions" where
  "parse_options cfg optionsOrTtl =
     (case optionsOrTtl of
        TtlNumber n \<Rightarrow>
          \<lparr>ttl = n, minTrafficCount = getSmartTrafficThreshold cfg n, forceCaching = False\<rparr>
      | OptionsObject t mtc fc \<Rightarrow>
          (let ttlValue = (case t of Some x \<Rightarrow> if x \<noteq> 0 then x else DEFAULT_TTL cfg
                                    | None \<Rightarrow> DEFAULT_TTL cfg)
           in \<lparr>ttl = ttlValue,
               minTrafficCount = (case mtc of Some c \<Rightarrow> c
                                             | None \<Rightarrow> getSmartTrafficThreshold cfg ttlValue),
               forceCaching = (case fc of Some b \<Rightarrow> b | None \<Rightarrow> False)\<rparr>)
      | NoOptions \<Rightarrow>
          \<lparr>ttl = DEFAULT_TTL cfg, minTrafficCount = TRAFFIC_THRESHOLD cfg, forceCaching = False\<rparr>)"

definition record_hit :: "config \<Rightarrow> int \<Rightarrow> world \<Rightarrow> world" where
  "record_hit cfg startTime w =
     w\<lparr>metrics := map_option (recordHit cfg (clock (wio w) - startTime)) (metrics w)\<rparr>"

definition record_miss :: "config \<Rightarrow> int \<Rightarrow> world \<Rightarrow> world" where
  "record_miss cfg startTime w =
     w\<lparr>metrics := map_option (recordMiss cfg (clock (wio w) - startTime)) (metrics w)\<rparr>"

definition record_error :: "config \<Rightarrow> world \<Rightarrow> world" where
  "record_error cfg w = w\<lparr>metrics := map_option (recordError cfg) (metrics w)\<rparr>"

text \<open>
  The two blocks of \<^verbatim>\<open>storeInCacheLayers\<close>: the write to the memory cache and the
  write to Redis.
\<close>

definition store_memory :: "config \<Rightarrow> string \<Rightarrow> jsval \<Rightarrow> int \<Rightarrow> world \<Rightarrow> world" where
  "store_memory cfg fullKey dat memoryTtl w =
     (case memory w of
        Some m \<Rightarrow>
          if ENABLE_MEMORY cfg
          then w\<lparr>memory :=
                   Some (snd (mem_set cfg (clock (wio w)) fullKey dat
                                (min memoryTtl (MEMORY_TTL_MAX cfg)) m))\<rparr>
          else w
      | None \<Rightarrow> w)"

definition store_redis :: "config \<Rightarrow> string \<Rightarrow> jsval \<Rightarrow> int \<Rightarrow> world \<Rightarrow> world" where
  "store_redis cfg fullKey dat redisTtl w =
     (case redis w of
        Some rc \<Rightarrow>
          if ENABLE_REDIS cfg
          then (let (redisStored, rc', s') = redis_setex cfg fullKey redisTtl dat (rc, wio w)
                in w\<lparr>redis := Some rc', wio := s'\<rparr>)
          else w
      | None \<Rightarrow> w)"

definition storeInCacheLayers ::
  "config \<Rightarrow> string \<Rightarrow> jsval \<Rightarrow> int \<Rightarrow> int \<Rightarrow> world \<Rightarrow> world" where
  "storeInCacheLayers cfg fullKey dat memoryTtl redisTtl w =
     store_redis cfg fullKey dat redisTtl (store_memory cfg fullKey dat memoryTtl w)"

text \<open>
  The blocks of \<^verbatim>\<open>fetchFromCacheLayers\<close>: the memory lookup and the Redis lookup
  (each yields \<open>null\<close> when its layer is off), and the promotion of a Redis hit into
  the memory cache (guarded by \<^verbatim>\<open>if (this.memory)\<close> only).
\<close>

definition memory_lookup :: "config \<Rightarrow> string \<Rightarrow> world \<Rightarrow> jsval \<times> world" where
  "memory_lookup cfg fullKey w =
     (case memory w of
        Some m \<Rightarrow>
          if ENABLE_MEMORY cfg
          then (let (memData, m') = mem_get (clock (wio w)) fullKey m
                in (memData, w\<lparr>memory := Some m'\<rparr>))
          else (JNull, w)
      | None \<Rightarrow> (JNull, w))"

definition redis_lookup :: "config \<Rightarrow> string \<Rightarrow> world \<Rightarrow> jsval \<times> world" where
  "redis_lookup cfg fullKey w =
     (case redis w of
        Some rc \<Rightarrow>
          if ENABLE_REDIS cfg
          then (let (redisData, rc', s') = redis_get cfg fullKey (rc, wio w)
                in (redisData, w\<lparr>redis := Some rc', wio := s'\<rparr>))
          else (JNull, w)
      | None \<Rightarrow> (JNull, w))"

definition promote :: "config \<Rightarrow> string \<Rightarrow> jsval \<Rightarrow> int \<Rightarrow> world \<Rightarrow> world" where
  "promote cfg fullKey redisData memoryTtl w =
     (case memory w of
        Some m \<Rightarrow>
          w\<lparr>memory :=
               Some (snd (mem_set cfg (clock (wio w)) fullKey redisData
                            (min memoryTtl (MEMORY_TTL_MAX cfg)) m))\<rparr>
      | None \<Rightarrow> w)"

text \<open>
  \<^verbatim>\<open>fetchFromCacheLayers\<close>. The result is \<open>Inl e\<close> when the producer throws \<open>e\<close>: the
  exception leaves the function, and the state is the one reached at the throw.
\<close>

definition fetchFromCacheLayers ::
  "config \<Rightarrow> string \<Rightarrow> producer \<Rightarrow> int \<Rightarrow> int \<Rightarrow> int \<Rightarrow> world \<Rightarrow> (string + jsval) \<times> world" where
  "fetchFromCacheLayers cfg fullKey fetcher memoryTtl redisTtl startTime w =
     (let (memData, w1) = memory_lookup cfg fullKey w
      in if truthy memData then (Inr memData, record_hit cfg startTime w1)
         else
           let (redisData, w2) = redis_lookup cfg fullKey w1
           in if truthy redisData
              then (Inr redisData,
                    record_hit cfg startTime (promote cfg fullKey redisData memoryTtl w2))
              else
                let (r, w3) = call_fetcher fetcher w2
                in case r of
                     Inl e \<Rightarrow> (Inl e, w3)
                   | Inr dat \<Rightarrow>
                       (Inr dat,
                        record_miss cfg startTime
                          (storeInCacheLayers cfg fullKey dat memoryTtl redisTtl w3)))"

text \<open>The body of the \<^verbatim>\<open>try\<close> block of \<^verbatim>\<open>fetch\<close>.\<close>

definition fetch_try ::
  "config \<Rightarrow> string \<Rightarrow> producer \<Rightarrow> CacheOptions \<Rightarrow> int \<Rightarrow> world \<Rightarrow> (string + jsval) \<times> world" where
  "fetch_try cfg key fetcher cacheOptions startTime w =
     (let fullKey = ''ez:'' @ key;
          memoryTtl = ttl cacheOptions;
          redisTtl = (if ENABLE_REDIS cfg then memoryTtl * 10 else memoryTtl);
          itemTrafficThreshold = minTrafficCount cacheOptions
      in if CACHE_MODE cfg = DISABLED then call_fetcher fetcher w
         else
           case (if ENABLE_TRAFFIC_DETECTION cfg \<and> \<not> forceCaching cacheOptions
                 then traffic w else None) of
             Some tr \<Rightarrow>
               (let (high, tr') =
                      isHighTraffic cfg (clock (wio w)) key (Some itemTrafficThreshold) tr;
                    w1 = w\<lparr>traffic := Some tr'\<rparr>
                in if \<not> high
                   then (let (r, w2) = call_fetcher fetcher w1
                         in case r of
                              Inl e \<Rightarrow> (Inl e, w2)
                            | Inr dat \<Rightarrow> (Inr dat, record_miss cfg startTime w2))
                   else fetchFromCacheLayers cfg fullKey fetcher memoryTtl redisTtl startTime w1)
           | None \<Rightarrow> fetchFromCacheLayers cfg fullKey fetcher memoryTtl redisTtl startTime w)"

text \<open>
  \<^verbatim>\<open>fetch\<close>: an exception that leaves the \<^verbatim>\<open>try\<close> block is caught, an error is
  counted, and the handler returns \<^verbatim>\<open>await fetcher()\<close>.
\<close>

definition fetch ::
  "config \<Rightarrow> string \<Rightarrow> producer \<Rightarrow> fetch_options \<Rightarrow> world \<Rightarrow> (string + jsval) \<times> world" where
  "fetch cfg key fetcher optionsOrTtl w =
     (let startTime = clock (wio w);
          cacheOptions = parse_options cfg optionsOrTtl;
          (r, w1) = fetch_try cfg key fetcher cacheOptions startTime w
      in case r of
           Inr dat \<Rightarrow> (Inr dat, w1)
         | Inl e \<Rightarrow> call_fetcher fetcher (record_error cfg w1))"

section \<open>The six remote operations as one dispatch\<close>

text \<open>
  To state properties of all six public operations of the client at once, an operation
  is a value, its result is tagged by its type, and \<open>run_op\<close> dispatches to the
  operation's model. A result \<open>None\<close> means that the operation never returns.
\<close>

datatype remote_op =
    OpGet string
  | OpSetex string int jsval
  | OpDel string
  | OpExists string
  | OpTtl string
  | OpKeys string

datatype op_result = RValue jsval | RBool bool | RInt int | RList "jsval list"

definition run_op ::
  "config \<Rightarrow> remote_op \<Rightarrow> ResilientRedis \<times> io \<Rightarrow> (op_result \<times> ResilientRedis \<times> io) option" where
  "run_op cfg op st =
     (case op of
        OpGet key \<Rightarrow> (case redis_get cfg key st of (v, st') \<Rightarrow> Some (RValue v, st'))
      | OpSetex key t dat \<Rightarrow> (case redis_setex cfg key t dat st of (b, st') \<Rightarrow> Some (RBool b, st'))
      | OpDel key \<Rightarrow> map_option (\<lambda>(b, st'). (RBool b, st')) (redis_del cfg key st)
      | OpExists key \<Rightarrow> map_option (\<lambda>(b, st'). (RBool b, st')) (redis_exists cfg key st)
      | OpTtl key \<Rightarrow> map_option (\<lambda>(n, st'). (RInt n, st')) (redis_ttl cfg key st)
      | OpKeys pattern \<Rightarrow> map_option (\<lambda>(ks, st'). (RList ks, st')) (redis_keys cfg pattern st))"

fun safe_default :: "remote_op \<Rightarrow> op_result" where
  "safe_default (OpGet key) = RValue JNull"
| "safe_default (OpSetex key t dat) = RBool False"
| "safe_default (OpDel key) = RBool False"
| "safe_default (OpExists key) = RBool False"
| "safe_default (OpTtl key) = RInt (- 1)"
| "safe_default (OpKeys pattern) = RList []"

fun command_of :: "remote_op \<Rightarrow> command" where
  "command_of (OpGet key) = GET key"
| "command_of (OpSetex key t dat) = SETEX key t dat"
| "command_of (OpDel key) = DEL key"
| "command_of (OpExists key) = EXISTS key"
| "command_of (OpTtl key) = TTL key"
| "command_of (OpKeys pattern) = KEYS pattern"

fun raced :: "remote_op \<Rightarrow> bool" where
  "raced (OpGet key) = True"
| "raced (OpSetex key t dat) = True"
| "raced op = False"

text \<open>
  The remote call of \<open>op\<close> fails: it rejects, or (for the two operations that race it
  against a timer) it has not settled when the timer's millisecond is over.
\<close>

definition fails :: "config \<Rightarrow> remote_op \<Rightarrow> net_outcome \<Rightarrow> bool" where
  "fails cfg op outcome =
     (case outcome of
        Rejects d \<Rightarrow> True
      | Resolves d v \<Rightarrow> raced op \<and> nat (REDIS_TIMEOUT cfg) < d
      | Hangs \<Rightarrow> raced op)"

text \<open>Running operations one after the other, and a script in which each remote call fails.\<close>

fun run_ops ::
  "config \<Rightarrow> remote_op list \<Rightarrow> ResilientRedis \<times> io \<Rightarrow> (ResilientRedis \<times> io) option" where
  "run_ops cfg [] st = Some st"
| "run_ops cfg (op # ops) st =
     (case run_op cfg op st of
        None \<Rightarrow> None
      | Some (r, st') \<Rightarrow> run_ops cfg ops st')"


section \<open>Example configurations and states\<close>

text \<open>
  Configurations as the configuration module computes them: for
  \<^verbatim>\<open>NODE_ENV=development\<close> with \<^verbatim>\<open>CACHE_STRATEGY=conservative\<close> and no Redis
  (capacity \<open>floor(200 * 0.7) = 140\<close>), for \<^verbatim>\<open>NODE_ENV=production\<close> without Redis,
  and for \<^verbatim>\<open>NODE_ENV=production\<close> with Redis. \<open>cfg_two\<close> is the production
  configuration with a store of capacity two.
\<close>

definition cfg_dev_conservative :: config where
  "cfg_dev_conservative =
     \<lparr>ENABLE_MEMORY = True, ENABLE_REDIS = False, ENABLE_CIRCUIT_BREAKER = False,
      CIRCUIT_FAILURE_THRESHOLD = 3, CIRCUIT_RESET_TIMEOUT = 30000, REDIS_TIMEOUT = 5000,
      MEMORY_SIZE = 140, MEMORY_TTL_MAX = 120, TRAFFIC_THRESHOLD = 50, DEFAULT_TTL = 60,
      ENABLE_METRICS = False, ENABLE_TRAFFIC_DETECTION = True, MAX_VALUE_SIZE = 1048576,
      WINDOW_MS = 60000, TRACKER_CLEANUP_MS = 300000\<rparr>"

definition cfg_prod_memory :: config where
  "cfg_prod_memory =
     \<lparr>ENABLE_MEMORY = True, ENABLE_REDIS = False, ENABLE_CIRCUIT_BREAKER = False,
      CIRCUIT_FAILURE_THRESHOLD = 3, CIRCUIT_RESET_TIMEOUT = 30000, REDIS_TIMEOUT = 5000,
      MEMORY_SIZE = 5000, MEMORY_TTL_MAX = 300, TRAFFIC_THRESHOLD = 100, DEFAULT_TTL = 600,
      ENABLE_METRICS = True, ENABLE_TRAFFIC_DETECTION = True, MAX_VALUE_SIZE = 1048576,
      WINDOW_MS = 60000, TRACKER_CLEANUP_MS = 300000\<rparr>"

definition cfg_prod_hybrid :: config where
  "cfg_prod_hybrid =
     \<lparr>ENABLE_MEMORY = True, ENABLE_REDIS = True, ENABLE_CIRCUIT_BREAKER = True,
      CIRCUIT_FAILURE_THRESHOLD = 3, CIRCUIT_RESET_TIMEOUT = 30000, REDIS_TIMEOUT = 5000,
      MEMORY_SIZE = 5000, MEMORY_TTL_MAX = 300, TRAFFIC_THRESHOLD = 100, DEFAULT_TTL = 600,
      ENABLE_METRICS = True, ENABLE_TRAFFIC_DETECTION = True, MAX_VALUE_SIZE = 1048576,
      WINDOW_MS = 60000, TRACKER_CLEANUP_MS = 300000\<rparr>"

definition cfg_two :: config where
  "cfg_two = cfg_prod_memory\<lparr>MEMORY_SIZE := 2\<rparr>"

text \<open>Memory stores: an empty one, one filled to capacity by \<^verbatim>\<open>set\<close> calls, one with two entries.\<close>

definition empty_store :: "int \<Rightarrow> ProductionMemoryCache" where
  "empty_store now = \<lparr>cache = [], totalSize = 0, lastCleanup = now\<rparr>"

definition other_keys :: "string list" where
  "other_keys = map (\<lambda>i. ''k'' @ replicate i (CHR ''x'')) [0..<139]"

definition set_all ::
  "config \<Rightarrow> int \<Rightarrow> string list \<Rightarrow> jsval \<Rightarrow> int \<Rightarrow> ProductionMemoryCache \<Rightarrow> ProductionMemoryCache" where
  "set_all cfg now keys dat t m = fold (\<lambda>key acc. snd (mem_set cfg now key dat t acc)) keys m"

definition filled_store :: ProductionMemoryCache where
  "filled_store = set_all cfg_dev_conservative 1000 ([] # other_keys) (JNum 1) 60 (empty_store 1000)"

text \<open>The filled store after one \<^verbatim>\<open>get\<close> of the empty key, half a second later.\<close>

definition hit_store :: ProductionMemoryCache where
  "hit_store = snd (mem_get 1500 [] filled_store)"

definition item_a :: CacheItem where
  "item_a = \<lparr>data = JNum 1, expires = 61000, lastAccess = 1000, hitCount = 1,
             size_bytes = 2, createdAt = 1000\<rparr>"

definition item_b :: CacheItem where
  "item_b = \<lparr>data = JNum 2, expires = 62000, lastAccess = 4000, hitCount = 3,
             size_bytes = 2, createdAt = 2000\<rparr>"

definition store_ab :: ProductionMemoryCache where
  "store_ab = \<lparr>cache = [(''a'', item_a), (''b'', item_b)], totalSize = 4, lastCleanup = 1000\<rparr>"

text \<open>Redis clients and remote services.\<close>

definition no_operations :: OperationMetrics where
  "no_operations =
     \<lparr>totalOperations = 0, successfulOperations = 0, failedOperations = 0,
      avgResponseTime = 0, lastOperationTime = 0\<rparr>"

definition rc_connected :: ResilientRedis where
  "rc_connected =
     \<lparr>redis_present = True, isConnected = True, circuitOpen = False, failureCount = 0,
      lastFailure = 0, connectionAttempts = 1, lastConnectionAttempt = 0,
      redisAvailable = True, operationMetrics = no_operations\<rparr>"

definition rc_unavailable :: ResilientRedis where
  "rc_unavailable =
     \<lparr>redis_present = False, isConnected = False, circuitOpen = False, failureCount = 0,
      lastFailure = 0, connectionAttempts = 0, lastConnectionAttempt = 0,
      redisAvailable = False, operationMetrics = no_operations\<rparr>"

text \<open>A client whose circuit was opened by a third failure at time 1000.\<close>

definition rc_open :: ResilientRedis where
  "rc_open =
     \<lparr>redis_present = True, isConnected = False, circuitOpen = True, failureCount = 3,
      lastFailure = 1000, connectionAttempts = 1, lastConnectionAttempt = 0,
      redisAvailable = True, operationMetrics = no_operations\<rparr>"

text \<open>A remote service that rejects the first three requests and answers every later one.\<close>

definition net_three_down :: "nat \<Rightarrow> net_outcome" where
  "net_three_down n = (if n < 3 then Rejects 5 else Resolves 5 (JStr ''v''))"

definition io_start :: io where
  "io_start = \<lparr>clock = 1000, net = net_three_down, sent = []\<rparr>"

definition three_ops :: "remote_op list" where
  "three_ops = [OpGet ''k'', OpSetex ''k'' 60 (JNum 1), OpDel ''k'']"

text \<open>A remote service that rejects every request, and one that never answers.\<close>

definition io_down :: io where
  "io_down = \<lparr>clock = 1000, net = (\<lambda>n. Rejects 5), sent = []\<rparr>"

definition io_silent :: io where
  "io_silent = \<lparr>clock = 1000, net = (\<lambda>n. Hangs), sent = []\<rparr>"

text \<open>An orchestrator without Redis in its initial state, producers, and forced options.\<close>

definition no_metrics :: PerformanceMetrics where
  "no_metrics =
     \<lparr>hits = 0, misses = 0, errors = 0, totalRequests_pm = 0, avgResponseTime_pm = 0,
      lastReset = 1000, responseTimes = []\<rparr>"

definition w_memory :: world where
  "w_memory =
     \<lparr>memory = Some (empty_store 1000),
      traffic = Some \<lparr>requests = [], lastGlobalCleanup = 1000\<rparr>,
      redis = None,
      metrics = Some no_metrics,
      wio = \<lparr>clock = 1000, net = (\<lambda>n. Hangs), sent = []\<rparr>,
      pcalls = 0\<rparr>"

text \<open>
  The production configuration with \<^verbatim>\<open>CACHE_ENABLE_MEMORY=false\<close> and no Redis (cache
  mode DISABLED), and the orchestrators that the constructor builds for it and for the
  development configuration (where metrics are off).
\<close>

definition cfg_prod_disabled :: config where
  "cfg_prod_disabled = cfg_prod_memory\<lparr>ENABLE_MEMORY := False\<rparr>"

definition w_disabled :: world where
  "w_disabled =
     \<lparr>memory = None,
      traffic = Some \<lparr>requests = [], lastGlobalCleanup = 1000\<rparr>,
      redis = None,
      metrics = Some no_metrics,
      wio = \<lparr>clock = 1000, net = (\<lambda>n. Hangs), sent = []\<rparr>,
      pcalls = 0\<rparr>"

definition w_development :: world where
  "w_development =
     \<lparr>memory = Some (empty_store 1000),
      traffic = Some \<lparr>requests = [], lastGlobalCleanup = 1000\<rparr>,
      redis = None,
      metrics = None,
      wio = \<lparr>clock = 1000, net = (\<lambda>n. Hangs), sent = []\<rparr>,
      pcalls = 0\<rparr>"

definition flaky_producer :: producer where
  "flaky_producer n = (if n = 0 then (5, Inl ''Database error'') else (5, Inr (JNum 42)))"

definition failing_producer :: producer where
  "failing_producer n = (5, Inl ''Database error'')"

definition constant_producer :: "jsval \<Rightarrow> producer" where
  "constant_producer v n = (5, Inr v)"

definition forced :: fetch_options where
  "forced = OptionsObject (Some 60) None (Some True)"

text \<open>
  Options with a traffic threshold of two requests, and the orchestrator after a first
  \<^verbatim>\<open>fetch\<close> with these options.
\<close>

definition gated :: fetch_options where
  "gated = OptionsObject (Some 60) (Some 2) None"

definition w_first :: world where
  "w_first = snd (fetch cfg_prod_memory ''k'' (constant_producer (JNum 42)) gated w_memory)"

text \<open>A string value of 524288 characters.\<close>

definition big_value :: jsval where
  "big_value = JStr (replicate 524288 (CHR ''a''))"

section \<open>Evaluating double arithmetic\<close>

lemma floor_rat_numeral:
  "\<lfloor>(numeral a :: rat) / numeral b\<rfloor> = numeral a div numeral b"
  by (metis floor_divide_of_int_eq of_int_numeral)

lemma ceiling_rat_numeral:
  "\<lceil>(numeral a :: rat) / numeral b\<rceil> = - (- numeral a div numeral b)"
  by (metis ceiling_divide_eq_div of_int_numeral)

text \<open>The definitions without their local bindings, as rewrite rules for closed terms.\<close>

lemma round_half_even_eval:
  "round_half_even x =
     (if x - of_int \<lfloor>x\<rfloor> < 1 / 2 then \<lfloor>x\<rfloor>
      else if 1 / 2 < x - of_int \<lfloor>x\<rfloor> then \<lfloor>x\<rfloor> + 1
      else if even \<lfloor>x\<rfloor> then \<lfloor>x\<rfloor> else \<lfloor>x\<rfloor> + 1)"
  by (simp add: round_half_even_def Let_def)

lemma to_double_eval:
  "to_double x =
     (if x = 0 then 0
      else sgn x
           * of_int (round_half_even (\<bar>x\<bar> / pow2 (max (binary_exponent \<bar>x\<bar>) (- 1022) - 52)))
           * pow2 (max (binary_exponent \<bar>x\<bar>) (- 1022) - 52))"
  by (simp add: to_double_def Let_def)

lemma score_eval:
  "score now item =
     dsub (dadd (dadd (ddiv (dsub (of_int now) (of_int (lastAccess item))) 1000)
                      (ddiv (dsub (of_int now) (of_int (createdAt item))) 10000))
                (ddiv (of_int (size_bytes item)) 1024))
          (dmul (of_int (hitCount item)) 100)"
  by (simp add: score_def Let_def)

lemmas double_defs = to_double_eval round_half_even_eval binary_exponent_def pow2_def ilog2.simps
  floor_rat_numeral ceiling_rat_numeral dadd_def dsub_def dmul_def ddiv_def

lemma one_tenth: "to_double (1 / 10) = 3602879701896397 / 36028797018963968"
  by (simp add: double_defs)

lemma three_tenths: "to_double (3 / 10) = 5404319552844595 / 18014398509481984"
  by (simp add: double_defs)

section \<open>Properties of the memory cache\<close>

lemma scan_fold_le_acc:
  "snd (fold (scan_step now) entries acc) \<le> snd acc"
proof (induction entries arbitrary: acc)
  case Nil
  show ?case by simp
next
  case (Cons e entries)
  have "snd (scan_step now e acc) \<le> snd acc" by (simp add: scan_step_def)
  with Cons.IH[of "scan_step now e acc"] show ?case by simp
qed

lemma scan_fold_le_entries:
  "e \<in> set entries \<Longrightarrow> snd (fold (scan_step now) entries acc) \<le> score now (snd e)"
proof (induction entries arbitrary: acc)
  case Nil
  then show ?case by simp
next
  case (Cons x entries)
  show ?case
  proof (cases "e = x")
    case True
    have "snd (scan_step now x acc) \<le> score now (snd x)" by (simp add: scan_step_def)
    with scan_fold_le_acc[of now entries "scan_step now x acc"] True show ?thesis by simp
  next
    case False
    with Cons.prems have "e \<in> set entries" by simp
    from Cons.IH[OF this, of "scan_step now x acc"] show ?thesis by simp
  qed
qed

lemma scan_fold_choice:
  "fold (scan_step now) entries acc = acc
   \<or> (\<exists>e \<in> set entries. fold (scan_step now) entries acc = (fst e, score now (snd e)))"
proof (induction entries arbitrary: acc)
  case Nil
  show ?case by simp
next
  case (Cons x entries)
  have step: "scan_step now x acc = acc \<or> scan_step now x acc = (fst x, score now (snd x))"
    by (simp add: scan_step_def)
  from Cons.IH[of "scan_step now x acc"] step show ?case by fastforce
qed

lemma make_room_at_capacity:
  assumes "int (length (cache m)) = MEMORY_SIZE cfg"
  shows "make_room cfg now m = (if fst (evictLRU now m) then snd (evictLRU now m) else m)"
proof (cases "fst (evictLRU now m)")
  case False
  then show ?thesis by (simp add: make_room.simps[of cfg now m])
next
  case True
  then have "evictLRU now m = (True, snd (evictLRU now m))"
    by (cases "evictLRU now m") simp
  then have "length (cache (snd (evictLRU now m))) < length (cache m)"
    by (rule evictLRU_length_less)
  with assms have "\<not> int (length (cache (snd (evictLRU now m)))) \<ge> MEMORY_SIZE cfg"
    by simp
  then have "make_room cfg now (snd (evictLRU now m)) = snd (evictLRU now m)"
    by (simp add: make_room.simps[of cfg now "snd (evictLRU now m)"])
  with True assms show ?thesis by (simp add: make_room.simps[of cfg now m])
qed

lemma evictLRU_True:
  assumes "distinct (map fst (cache m))" and "fst (evictLRU now m)"
  shows "\<exists>k item. k \<noteq> [] \<and> map_of (cache m) k = Some item
           \<and> (\<forall>e \<in> set (cache m). score now item \<le> score now (snd e))
           \<and> cache (snd (evictLRU now m)) = AList.delete k (cache m)"
proof -
  let ?r = "scan now (cache m)"
  from assms(2) have k: "fst ?r \<noteq> []" and ev: "evictLRU now m = (True, snd (mem_delete (fst ?r) m))"
    by (auto simp: evictLRU_def Let_def split: if_splits)
  have mins: "\<forall>e \<in> set (cache m). snd ?r \<le> score now (snd e)"
    by (simp add: scan_def scan_fold_le_entries)
  from scan_fold_choice[of now "cache m" "([], MAX_SAFE_INTEGER)"]
  have cases: "?r = ([], MAX_SAFE_INTEGER) \<or> (\<exists>e \<in> set (cache m). ?r = (fst e, score now (snd e)))"
    by (simp add: scan_def)
  from cases k obtain e where e: "e \<in> set (cache m)" "?r = (fst e, score now (snd e))"
    by auto
  have look: "map_of (cache m) (fst e) = Some (snd e)"
    using e(1) assms(1) by (intro map_of_is_SomeI) simp_all
  have "cache (snd (mem_delete (fst e) m)) = AList.delete (fst e) (cache m)"
    using look by (simp add: mem_delete_def)
  with e mins look k ev show ?thesis
    by (intro exI[of _ "fst e"] exI[of _ "snd e"]) simp
qed

lemma evictLRU_False: "\<not> fst (evictLRU now m) \<Longrightarrow> snd (evictLRU now m) = m"
  by (simp add: evictLRU_def Let_def split: if_splits)

lemma mem_delete_distinct:
  "distinct (map fst (cache m)) \<Longrightarrow> distinct (map fst (cache (snd (mem_delete key m))))"
  by (simp add: mem_delete_def distinct_delete split: option.split)

lemma fold_mem_delete_distinct:
  "distinct (map fst (cache m)) \<Longrightarrow>
   distinct (map fst (cache (fold (\<lambda>key acc. snd (mem_delete key acc)) ks m)))"
  by (induction ks arbitrary: m) (simp_all add: mem_delete_distinct)

lemma cleanupExpired_distinct:
  "distinct (map fst (cache m)) \<Longrightarrow> distinct (map fst (cache (cleanupExpired now m)))"
  by (simp add: cleanupExpired_def Let_def fold_mem_delete_distinct)

lemma evictLRU_succeeds:
  assumes keys: "\<forall>e \<in> set (cache m). fst e \<noteq> []"
    and low: "\<exists>e \<in> set (cache m). score now (snd e) < MAX_SAFE_INTEGER"
  shows "fst (evictLRU now m)"
proof -
  let ?r = "scan now (cache m)"
  from low obtain e where e: "e \<in> set (cache m)" "score now (snd e) < MAX_SAFE_INTEGER"
    by blast
  have "snd ?r \<le> score now (snd e)"
    using e(1) by (simp add: scan_def scan_fold_le_entries)
  with e(2) have "?r \<noteq> ([], MAX_SAFE_INTEGER)" by auto
  with scan_fold_choice[of now "cache m" "([], MAX_SAFE_INTEGER)"]
  obtain x where "x \<in> set (cache m)" "?r = (fst x, score now (snd x))"
    by (auto simp: scan_def)
  with keys have "fst ?r \<noteq> []" by simp
  moreover from e(1) have "length (cache m) \<noteq> 0" by auto
  ultimately show ?thesis by (simp add: evictLRU_def Let_def)
qed

lemma mem_set_cache:
  assumes "estimateSize dat \<le> MAX_VALUE_SIZE cfg"
  shows "cache (snd (mem_set cfg now key dat t m))
         = AList.update key (new_item cfg now dat t)
             (cache (make_room cfg now (cleanupExpired now m)))"
  using assms by (simp add: mem_set_def Let_def new_item_def split: option.split)

text \<open>
  What the eviction does when it happens. When the store is at capacity at the moment
  \<^verbatim>\<open>set\<close> makes room (that is, after the throttled expiry sweep that \<^verbatim>\<open>set\<close> runs
  first), an entry that is gone after the insertion (other than the inserted key itself)
  has the lowest score among all entries present at that moment. If moreover no key is
  the empty string and some score lies below \<^verbatim>\<open>Number.MAX_SAFE_INTEGER\<close>, exactly one
  entry of lowest score is removed before the new entry is written.
\<close>

theorem evicted_entry_has_lowest_score:
  assumes wf: "distinct (map fst (cache m))"
    and fits: "estimateSize dat \<le> MAX_VALUE_SIZE cfg"
    and full: "int (length (cache (cleanupExpired now m))) = MEMORY_SIZE cfg"
  shows "(\<forall>k item.
            map_of (cache (cleanupExpired now m)) k = Some item \<and> k \<noteq> key
            \<and> map_of (cache (snd (mem_set cfg now key dat t m))) k = None
            \<longrightarrow> (\<forall>e \<in> set (cache (cleanupExpired now m)). score now item \<le> score now (snd e)))
       \<and> ((\<forall>e \<in> set (cache (cleanupExpired now m)). fst e \<noteq> [])
            \<and> (\<exists>e \<in> set (cache (cleanupExpired now m)). score now (snd e) < MAX_SAFE_INTEGER)
            \<longrightarrow> (\<exists>k item.
                   map_of (cache (cleanupExpired now m)) k = Some item
                   \<and> (\<forall>e \<in> set (cache (cleanupExpired now m)). score now item \<le> score now (snd e))
                   \<and> cache (snd (mem_set cfg now key dat t m))
                       = AList.update key (new_item cfg now dat t)
                           (AList.delete k (cache (cleanupExpired now m)))))"
proof -
  let ?m1 = "cleanupExpired now m"
  let ?res = "cache (snd (mem_set cfg now key dat t m))"
  have d1: "distinct (map fst (cache ?m1))" using wf by (rule cleanupExpired_distinct)
  have room: "make_room cfg now ?m1 = (if fst (evictLRU now ?m1) then snd (evictLRU now ?m1) else ?m1)"
    using full by (rule make_room_at_capacity)
  have res: "?res = AList.update key (new_item cfg now dat t) (cache (make_room cfg now ?m1))"
    using fits by (rule mem_set_cache)
  have A: "\<forall>e \<in> set (cache ?m1). score now item \<le> score now (snd e)"
    if present: "map_of (cache ?m1) k = Some item" and other: "k \<noteq> key"
      and gone: "map_of ?res k = None" for k item
  proof (cases "fst (evictLRU now ?m1)")
    case False
    with room res have "?res = AList.update key (new_item cfg now dat t) (cache ?m1)" by simp
    with gone other present show ?thesis by (simp add: update_conv')
  next
    case True
    from evictLRU_True[OF d1 True] obtain k' item' where
      look: "map_of (cache ?m1) k' = Some item'"
      and least: "\<forall>e \<in> set (cache ?m1). score now item' \<le> score now (snd e)"
      and after: "cache (snd (evictLRU now ?m1)) = AList.delete k' (cache ?m1)"
      by blast
    from room res True after
    have "?res = AList.update key (new_item cfg now dat t) (AList.delete k' (cache ?m1))" by simp
    with gone other have "map_of (AList.delete k' (cache ?m1)) k = None"
      by (simp add: update_conv')
    with present have "k = k'" by (simp add: delete_conv' split: if_splits)
    with look present least show ?thesis by simp
  qed
  have B: "\<exists>k item. map_of (cache ?m1) k = Some item
             \<and> (\<forall>e \<in> set (cache ?m1). score now item \<le> score now (snd e))
             \<and> ?res = AList.update key (new_item cfg now dat t) (AList.delete k (cache ?m1))"
    if keys: "\<forall>e \<in> set (cache ?m1). fst e \<noteq> []"
      and low: "\<exists>e \<in> set (cache ?m1). score now (snd e) < MAX_SAFE_INTEGER"
  proof -
    have ev: "fst (evictLRU now ?m1)" using keys low by (rule evictLRU_succeeds)
    from evictLRU_True[OF d1 ev] obtain k' item' where
      look: "map_of (cache ?m1) k' = Some item'"
      and least: "\<forall>e \<in> set (cache ?m1). score now item' \<le> score now (snd e)"
      and after: "cache (snd (evictLRU now ?m1)) = AList.delete k' (cache ?m1)"
      by blast
    from room res ev after
    have "?res = AList.update key (new_item cfg now dat t) (AList.delete k' (cache ?m1))" by simp
    with look least show ?thesis by blast
  qed
  from A B show ?thesis by blast
qed

text \<open>
  Claim C6, amended. \<^verbatim>\<open>get\<close> returns \<open>null\<close> for a missing key and leaves the store
  unchanged. For a present entry it returns \<open>null\<close> and deletes the entry when
  \<open>expiresAt < now\<close> (strictly); when \<open>now \<le> expiresAt\<close>, the boundary
  \<open>expiresAt = now\<close> included, it returns the value, sets \<open>lastAccessAt\<close> to \<open>now\<close> and
  increments \<open>hitCount\<close>.
\<close>

theorem mem_get_expiry:
  "(case map_of (cache m) key of
      None \<Rightarrow> mem_get now key m = (JNull, m)
    | Some item \<Rightarrow>
        (expires item < now \<longrightarrow>
           fst (mem_get now key m) = JNull
           \<and> map_of (cache (snd (mem_get now key m))) key = None)
        \<and> (now \<le> expires item \<longrightarrow>
           fst (mem_get now key m) = data item
           \<and> map_of (cache (snd (mem_get now key m))) key
               = Some (item\<lparr>lastAccess := now, hitCount := hitCount item + 1\<rparr>)))"
  by (simp add: mem_get_def mem_delete_def delete_conv' update_conv' split: option.split)

text \<open>
  An instance: in a full store of capacity two, inserting \<open>c\<close> evicts \<open>b\<close>, whose score
  (three hits) is the lowest, and keeps \<open>a\<close>.
\<close>

lemma score_item_a: "score 5000 item_a = - (3363557252215603 / 35184372088832)"
  by (simp add: item_a_def score_eval double_defs)

lemma score_item_b: "score 5000 item_b = - (5254751611728691 / 17592186044416)"
  by (simp add: item_b_def score_eval double_defs)

theorem evicted_entry_has_lowest_score_witness:
  "map_of (cache (snd (mem_set cfg_two 5000 ''c'' (JNum 3) 60 store_ab))) ''b'' = None
   \<and> map_of (cache (snd (mem_set cfg_two 5000 ''c'' (JNum 3) 60 store_ab))) ''a'' = Some item_a
   \<and> score 5000 item_b \<le> score 5000 item_a"
proof -
  have wf: "distinct (map fst (cache store_ab))" by (simp add: store_ab_def)
  have fits: "estimateSize (JNum 3) \<le> MAX_VALUE_SIZE cfg_two"
    by (simp add: estimateSize_def number_len_def dec_len.simps cfg_two_def cfg_prod_memory_def)
  have sweep: "cleanupExpired 5000 store_ab = store_ab"
    by (simp add: cleanupExpired_def store_ab_def)
  have full: "int (length (cache (cleanupExpired 5000 store_ab))) = MEMORY_SIZE cfg_two"
    unfolding sweep by (simp add: store_ab_def cfg_two_def cfg_prod_memory_def)
  have present: "map_of (cache (cleanupExpired 5000 store_ab)) ''b'' = Some item_b"
    unfolding sweep by (simp add: store_ab_def)
  have chosen: "scan 5000 (cache store_ab) = (''b'', score 5000 item_b)"
    by (simp add: scan_def scan_step_def store_ab_def score_item_a score_item_b
          MAX_SAFE_INTEGER_def)
  have evicted: "evictLRU 5000 store_ab = (True, snd (mem_delete ''b'' store_ab))"
    by (simp add: evictLRU_def chosen) (simp add: store_ab_def)
  have room: "cache (make_room cfg_two 5000 (cleanupExpired 5000 store_ab)) = [(''a'', item_a)]"
    unfolding sweep
    by (simp add: make_room_at_capacity[OF full[unfolded sweep]] evicted)
       (simp add: mem_delete_def store_ab_def)
  have gone: "map_of (cache (snd (mem_set cfg_two 5000 ''c'' (JNum 3) 60 store_ab))) ''b'' = None"
    by (simp add: mem_set_cache[OF fits] room)
  have kept: "map_of (cache (snd (mem_set cfg_two 5000 ''c'' (JNum 3) 60 store_ab))) ''a'' = Some item_a"
    by (simp add: mem_set_cache[OF fits] room)
  have a: "(''a'', item_a) \<in> set (cache (cleanupExpired 5000 store_ab))"
    unfolding sweep by (simp add: store_ab_def)
  from evicted_entry_has_lowest_score[OF wf fits full, where key = "''c''" and t = 60] present gone
  have "\<forall>e \<in> set (cache (cleanupExpired 5000 store_ab)). score 5000 item_b \<le> score 5000 (snd e)"
    by blast
  with a have "score 5000 item_b \<le> score 5000 item_a" by fastforce
  with gone kept show ?thesis by simp
qed

text \<open>
  Claim C6 as stated fails at the boundary: the test in \<^verbatim>\<open>get\<close> is \<^verbatim>\<open>now > item.expires\<close>,
  so an entry whose \<open>expiresAt\<close> equals \<open>now\<close> is returned, and counted as a hit.
\<close>

theorem mem_get_at_expiry_counterexample:
  "expires item_a = 61000
   \<and> fst (mem_get 61000 ''a'' store_ab) = JNum 1
   \<and> map_of (cache (snd (mem_get 61000 ''a'' store_ab))) ''a''
       = Some (item_a\<lparr>lastAccess := 61000, hitCount := 2\<rparr>)"
  by code_simp

text \<open>An instance: an expired entry, a live entry and a missing key.\<close>

theorem mem_get_expiry_witness:
  "fst (mem_get 61001 ''a'' store_ab) = JNull
   \<and> map_of (cache (snd (mem_get 61001 ''a'' store_ab))) ''a'' = None
   \<and> fst (mem_get 5000 ''a'' store_ab) = JNum 1
   \<and> map_of (cache (snd (mem_get 5000 ''a'' store_ab))) ''a''
       = Some (item_a\<lparr>lastAccess := 5000, hitCount := 2\<rparr>)
   \<and> mem_get 5000 ''zz'' store_ab = (JNull, store_ab)"
proof -
  have a: "map_of (cache store_ab) ''a'' = Some item_a" by (simp add: store_ab_def)
  have z: "map_of (cache store_ab) ''zz'' = None" by (simp add: store_ab_def)
  have e: "expires item_a = 61000" "data item_a = JNum 1" "hitCount item_a = 1"
    by (simp_all add: item_a_def)
  from mem_get_expiry[where m = store_ab and key = "''a''" and now = 61001]
    mem_get_expiry[where m = store_ab and key = "''a''" and now = 5000]
    mem_get_expiry[where m = store_ab and key = "''zz''" and now = 5000]
  show ?thesis by (simp add: a z e)
qed

text \<open>Filling a store below its capacity, and what an empty key does to the scan.\<close>

lemma update_fresh:
  "key \<notin> fst ` set al \<Longrightarrow> AList.update key v al = al @ [(key, v)]"
  by (induction al) auto

lemma make_room_below:
  "int (length (cache m)) < MEMORY_SIZE cfg \<Longrightarrow> make_room cfg now m = m"
  by (simp add: make_room.simps[of cfg now m])

lemma cleanupExpired_throttled:
  "now - lastCleanup m < 10000 \<Longrightarrow> cleanupExpired now m = m"
  by (simp add: cleanupExpired_def)

lemma mem_set_fresh_below:
  assumes "estimateSize dat \<le> MAX_VALUE_SIZE cfg"
    and "now - lastCleanup m < 10000"
    and "int (length (cache m)) < MEMORY_SIZE cfg"
    and "key \<notin> fst ` set (cache m)"
  shows "cache (snd (mem_set cfg now key dat t m)) = cache m @ [(key, new_item cfg now dat t)]"
    and "lastCleanup (snd (mem_set cfg now key dat t m)) = lastCleanup m"
proof -
  have room: "make_room cfg now (cleanupExpired now m) = m"
    using assms(2,3) by (simp add: cleanupExpired_throttled make_room_below)
  show "cache (snd (mem_set cfg now key dat t m)) = cache m @ [(key, new_item cfg now dat t)]"
    using assms(4) by (simp add: mem_set_cache[OF assms(1)] room update_fresh)
  show "lastCleanup (snd (mem_set cfg now key dat t m)) = lastCleanup m"
    using assms(1) by (simp add: mem_set_def Let_def room split: option.split)
qed

lemma set_all_fresh:
  assumes "estimateSize dat \<le> MAX_VALUE_SIZE cfg"
    and "now - lastCleanup m < 10000"
    and "int (length (cache m)) + int (length keys) \<le> MEMORY_SIZE cfg"
    and "distinct keys"
    and "set keys \<inter> fst ` set (cache m) = {}"
  shows "cache (set_all cfg now keys dat t m)
           = cache m @ map (\<lambda>key. (key, new_item cfg now dat t)) keys
         \<and> lastCleanup (set_all cfg now keys dat t m) = lastCleanup m"
  using assms(2-5)
proof (induction keys arbitrary: m)
  case Nil
  show ?case by (simp add: set_all_def)
next
  case (Cons key keys)
  let ?m1 = "snd (mem_set cfg now key dat t m)"
  have below: "int (length (cache m)) < MEMORY_SIZE cfg" using Cons.prems(2) by simp
  have fresh: "key \<notin> fst ` set (cache m)" using Cons.prems(4) by auto
  note step = mem_set_fresh_below[OF assms(1) Cons.prems(1) below fresh, of t]
  have "cache (set_all cfg now keys dat t ?m1)
          = cache ?m1 @ map (\<lambda>key. (key, new_item cfg now dat t)) keys
        \<and> lastCleanup (set_all cfg now keys dat t ?m1) = lastCleanup ?m1"
  proof (rule Cons.IH)
    show "now - lastCleanup ?m1 < 10000" using step(2) Cons.prems(1) by simp
    show "int (length (cache ?m1)) + int (length keys) \<le> MEMORY_SIZE cfg"
      using step(1) Cons.prems(2) by simp
    show "distinct keys" using Cons.prems(3) by simp
    show "set keys \<inter> fst ` set (cache ?m1) = {}"
      using step(1) Cons.prems(3,4) by auto
  qed
  with step show ?case by (simp add: set_all_def)
qed

lemma scan_fold_keep:
  "\<forall>e \<in> set entries. \<not> score now (snd e) < snd acc \<Longrightarrow>
   fold (scan_step now) entries acc = acc"
  by (induction entries) (simp_all add: scan_step_def)

lemma scan_first_wins:
  assumes "score now i0 < MAX_SAFE_INTEGER"
    and "\<forall>e \<in> set rest. score now i0 \<le> score now (snd e)"
  shows "scan now ((k0, i0) # rest) = (k0, score now i0)"
proof -
  have "\<forall>e \<in> set rest. \<not> score now (snd e) < snd (k0, score now i0)"
    using assms(2) by (auto simp: not_less)
  from scan_fold_keep[OF this] assms(1) show ?thesis
    by (simp add: scan_def scan_step_def)
qed

lemma empty_key_overrun:
  assumes fits: "estimateSize dat \<le> MAX_VALUE_SIZE cfg"
    and throttled: "now - lastCleanup m < 10000"
    and shape: "cache m = ([], i0) # rest"
    and low: "score now i0 < MAX_SAFE_INTEGER"
    and least: "\<forall>e \<in> set rest. score now i0 \<le> score now (snd e)"
    and fresh: "key \<notin> fst ` set (cache m)"
  shows "cache (snd (mem_set cfg now key dat t m)) = cache m @ [(key, new_item cfg now dat t)]"
proof -
  have "fst (scan now (cache m)) = []"
    using scan_first_wins[OF low least, of "[]"] shape by simp
  then have "evictLRU now m = (False, m)" by (simp add: evictLRU_def)
  then have "make_room cfg now m = m" by (simp add: make_room.simps[of cfg now m])
  then have "make_room cfg now (cleanupExpired now m) = m"
    using throttled by (simp add: cleanupExpired_throttled)
  then show ?thesis using fresh by (simp add: mem_set_cache[OF fits] update_fresh)
qed

lemma other_keys_facts:
  "distinct other_keys" "[] \<notin> set other_keys" "''new'' \<notin> set other_keys"
  "length other_keys = 139"
proof -
  have "inj_on (\<lambda>i. ''k'' @ replicate i (CHR ''x'')) (set [0..<139])"
    by (rule inj_onI) (auto dest: arg_cong[where f = length])
  then show "distinct other_keys" by (simp add: other_keys_def distinct_map)
  show "[] \<notin> set other_keys" by (auto simp: other_keys_def)
  show "''new'' \<notin> set other_keys" by (auto simp: other_keys_def)
  show "length other_keys = 139" by (simp add: other_keys_def)
qed

lemma filled_store_cache:
  "cache filled_store
     = map (\<lambda>key. (key, new_item cfg_dev_conservative 1000 (JNum 1) 60)) ([] # other_keys)"
  "lastCleanup filled_store = 1000"
proof -
  have "cache filled_store
          = cache (empty_store 1000)
              @ map (\<lambda>key. (key, new_item cfg_dev_conservative 1000 (JNum 1) 60)) ([] # other_keys)
        \<and> lastCleanup filled_store = lastCleanup (empty_store 1000)"
    unfolding filled_store_def
    by (rule set_all_fresh)
       (simp_all add: other_keys_facts empty_store_def cfg_dev_conservative_def estimateSize_def
          number_len_def dec_len.simps)
  then show "cache filled_store
     = map (\<lambda>key. (key, new_item cfg_dev_conservative 1000 (JNum 1) 60)) ([] # other_keys)"
    and "lastCleanup filled_store = 1000"
    by (simp_all add: empty_store_def)
qed

text \<open>
  Claim C4 fails on the code. With capacity 140, the store is filled by 140 \<^verbatim>\<open>set\<close>
  calls, the first of them for the empty key \<^verbatim>\<open>''\<close>. All entries have the same score,
  so the scan of \<^verbatim>\<open>evictLRU\<close> settles on the first one, the entry of key \<^verbatim>\<open>''\<close>;
  the truthiness test \<^verbatim>\<open>if (evictKey)\<close> then takes the chosen key for no key, nothing
  is evicted, the loop breaks, and the next \<^verbatim>\<open>set\<close> of a new key leaves 141 entries.
\<close>

theorem empty_key_defeats_capacity:
  "mem_size filled_store = 140
   \<and> MEMORY_SIZE cfg_dev_conservative = 140
   \<and> mem_size (snd (mem_set cfg_dev_conservative 1000 ''new'' (JNum 2) 60 filled_store)) = 141"
proof -
  let ?item = "new_item cfg_dev_conservative 1000 (JNum 1) 60"
  have size: "mem_size filled_store = 140"
    by (simp add: mem_size_def filled_store_cache other_keys_facts)
  have "cache (snd (mem_set cfg_dev_conservative 1000 ''new'' (JNum 2) 60 filled_store))
          = cache filled_store @ [(''new'', new_item cfg_dev_conservative 1000 (JNum 2) 60)]"
  proof (rule empty_key_overrun)
    show "estimateSize (JNum 2) \<le> MAX_VALUE_SIZE cfg_dev_conservative"
      by (simp add: estimateSize_def number_len_def dec_len.simps cfg_dev_conservative_def)
    show "1000 - lastCleanup filled_store < 10000" by (simp add: filled_store_cache)
    show "cache filled_store = ([], ?item) # map (\<lambda>key. (key, ?item)) other_keys"
      by (simp add: filled_store_cache)
    show "score 1000 ?item < MAX_SAFE_INTEGER"
      by (simp add: score_eval new_item_def estimateSize_def number_len_def dec_len.simps
            MAX_SAFE_INTEGER_def double_defs)
    show "\<forall>e \<in> set (map (\<lambda>key. (key, ?item)) other_keys). score 1000 ?item \<le> score 1000 (snd e)"
      by auto
    show "''new'' \<notin> fst ` set (cache filled_store)"
      using other_keys_facts(3) by (auto simp: filled_store_cache)
  qed
  with size show ?thesis by (simp add: mem_size_def cfg_dev_conservative_def)
qed

lemma hit_store_cache:
  "cache hit_store
     = ([], (new_item cfg_dev_conservative 1000 (JNum 1) 60)\<lparr>lastAccess := 1500, hitCount := 2\<rparr>)
       # map (\<lambda>key. (key, new_item cfg_dev_conservative 1000 (JNum 1) 60)) other_keys"
  "lastCleanup hit_store = 1000"
  by (simp_all add: hit_store_def mem_get_def filled_store_cache new_item_def
        cfg_dev_conservative_def)

lemma score_hit_entry:
  "score 2000 ((new_item cfg_dev_conservative 1000 (JNum 1) 60)\<lparr>lastAccess := 1500, hitCount := 2\<rparr>)
     = - (7015695075036365 / 35184372088832)"
  by (simp add: score_eval new_item_def estimateSize_def number_len_def dec_len.simps
        double_defs)

lemma score_plain_entry:
  "score 2000 (new_item cfg_dev_conservative 1000 (JNum 1) 60)
     = - (3479665680108749 / 35184372088832)"
  by (simp add: score_eval new_item_def estimateSize_def number_len_def dec_len.simps
        double_defs)

text \<open>
  Claim C5 fails on the code, by the defect that also breaks claim C4. The store of
  capacity 140 is full; the entry of the empty key \<^verbatim>\<open>''\<close> has been read once more than
  the other 139 entries, which are all alike, so at time 2000 its score is strictly the
  lowest. The scan of \<^verbatim>\<open>evictLRU\<close> chooses it, the test \<^verbatim>\<open>if (evictKey)\<close> takes the empty
  key for no key, and \<^verbatim>\<open>set\<close> inserts the new entry without evicting anything: all 140
  entries, the one of lowest score included, are still there.
\<close>

theorem lowest_score_entry_is_not_evicted:
  "mem_size hit_store = 140
   \<and> MEMORY_SIZE cfg_dev_conservative = 140
   \<and> hd (cache hit_store)
       = ([], (new_item cfg_dev_conservative 1000 (JNum 1) 60)\<lparr>lastAccess := 1500, hitCount := 2\<rparr>)
   \<and> snd ` set (tl (cache hit_store)) = {new_item cfg_dev_conservative 1000 (JNum 1) 60}
   \<and> score 2000 ((new_item cfg_dev_conservative 1000 (JNum 1) 60)\<lparr>lastAccess := 1500, hitCount := 2\<rparr>)
       < score 2000 (new_item cfg_dev_conservative 1000 (JNum 1) 60)
   \<and> cache (snd (mem_set cfg_dev_conservative 2000 ''new'' (JNum 2) 60 hit_store))
       = cache hit_store @ [(''new'', new_item cfg_dev_conservative 2000 (JNum 2) 60)]"
proof -
  let ?plain = "new_item cfg_dev_conservative 1000 (JNum 1) 60"
  let ?hit = "?plain\<lparr>lastAccess := 1500, hitCount := 2\<rparr>"
  have size: "mem_size hit_store = 140"
    by (simp add: mem_size_def hit_store_cache other_keys_facts)
  have cap: "MEMORY_SIZE cfg_dev_conservative = 140" by (simp add: cfg_dev_conservative_def)
  have first: "hd (cache hit_store) = ([], ?hit)" by (simp add: hit_store_cache)
  have "other_keys \<noteq> []" using other_keys_facts(4) by auto
  then have others: "snd ` set (tl (cache hit_store)) = {?plain}"
    by (simp add: hit_store_cache image_image image_constant_conv)
  have lower: "score 2000 ?hit < score 2000 ?plain"
    by (simp add: score_hit_entry score_plain_entry)
  have kept: "cache (snd (mem_set cfg_dev_conservative 2000 ''new'' (JNum 2) 60 hit_store))
          = cache hit_store @ [(''new'', new_item cfg_dev_conservative 2000 (JNum 2) 60)]"
  proof (rule empty_key_overrun)
    show "estimateSize (JNum 2) \<le> MAX_VALUE_SIZE cfg_dev_conservative"
      by (simp add: estimateSize_def number_len_def dec_len.simps cfg_dev_conservative_def)
    show "2000 - lastCleanup hit_store < 10000" by (simp add: hit_store_cache)
    show "cache hit_store = ([], ?hit) # map (\<lambda>key. (key, ?plain)) other_keys"
      by (simp add: hit_store_cache)
    show "score 2000 ?hit < MAX_SAFE_INTEGER"
      by (simp add: score_hit_entry MAX_SAFE_INTEGER_def)
    show "\<forall>e \<in> set (map (\<lambda>key. (key, ?plain)) other_keys). score 2000 ?hit \<le> score 2000 (snd e)"
      using lower by auto
    show "''new'' \<notin> fst ` set (cache hit_store)"
      using other_keys_facts(3) by (auto simp: hit_store_cache)
  qed
  from size cap first others lower kept show ?thesis by blast
qed

lemma mem_delete_subset:
  "set (cache (snd (mem_delete key m))) \<subseteq> set (cache m)"
  by (auto simp: mem_delete_def AList.delete_eq split: option.splits)

lemma fold_mem_delete_subset:
  "set (cache (fold (\<lambda>key acc. snd (mem_delete key acc)) ks m)) \<subseteq> set (cache m)"
proof (induction ks arbitrary: m)
  case Nil
  show ?case by simp
next
  case (Cons k ks)
  from Cons.IH[of "snd (mem_delete k m)"] mem_delete_subset[of k m] show ?case by auto
qed

lemma fold_mem_delete_length:
  "length (cache (fold (\<lambda>key acc. snd (mem_delete key acc)) ks m)) \<le> length (cache m)"
proof (induction ks arbitrary: m)
  case Nil
  show ?case by simp
next
  case (Cons k ks)
  from Cons.IH[of "snd (mem_delete k m)"] mem_delete_length[of k m] show ?case by simp
qed

lemma cleanupExpired_subset:
  "set (cache (cleanupExpired now m)) \<subseteq> set (cache m)"
  using fold_mem_delete_subset by (simp add: cleanupExpired_def Let_def)

lemma cleanupExpired_length:
  "length (cache (cleanupExpired now m)) \<le> length (cache m)"
  using fold_mem_delete_length by (simp add: cleanupExpired_def Let_def)

lemma update_length: "length (AList.update k v al) \<le> Suc (length al)"
  by (induction al) auto

text \<open>
  The capacity bound that \<^verbatim>\<open>set\<close> does keep: if no stored key is the empty string and
  every score lies below \<^verbatim>\<open>Number.MAX_SAFE_INTEGER\<close>, a store within its capacity is
  within its capacity after \<^verbatim>\<open>set\<close>.
\<close>

theorem capacity_kept_without_empty_key:
  assumes wf: "distinct (map fst (cache m))"
    and cap: "1 \<le> MEMORY_SIZE cfg"
    and inv: "int (length (cache m)) \<le> MEMORY_SIZE cfg"
    and keys: "\<forall>e \<in> set (cache m). fst e \<noteq> []"
    and low: "\<forall>e \<in> set (cache m). score now (snd e) < MAX_SAFE_INTEGER"
  shows "int (length (cache (snd (mem_set cfg now key dat t m)))) \<le> MEMORY_SIZE cfg"
proof (cases "estimateSize dat \<le> MAX_VALUE_SIZE cfg")
  case False
  then show ?thesis using inv by (simp add: mem_set_def)
next
  case True
  let ?m1 = "cleanupExpired now m"
  have len1: "int (length (cache ?m1)) \<le> MEMORY_SIZE cfg"
    using cleanupExpired_length[of now m] inv by simp
  have room: "int (length (cache (make_room cfg now ?m1))) < MEMORY_SIZE cfg"
  proof (cases "int (length (cache ?m1)) < MEMORY_SIZE cfg")
    case True
    then show ?thesis by (simp add: make_room_below)
  next
    case False
    with len1 have full: "int (length (cache ?m1)) = MEMORY_SIZE cfg" by simp
    with cap obtain e where e: "e \<in> set (cache ?m1)" by (cases "cache ?m1") auto
    have k1: "\<forall>e \<in> set (cache ?m1). fst e \<noteq> []"
      using keys cleanupExpired_subset[of now m] by blast
    have "score now (snd e) < MAX_SAFE_INTEGER"
      using low e cleanupExpired_subset[of now m] by blast
    with e have l1: "\<exists>e \<in> set (cache ?m1). score now (snd e) < MAX_SAFE_INTEGER" by blast
    have ev: "fst (evictLRU now ?m1)" using k1 l1 by (rule evictLRU_succeeds)
    then have "evictLRU now ?m1 = (True, snd (evictLRU now ?m1))"
      by (cases "evictLRU now ?m1") simp
    then have "length (cache (snd (evictLRU now ?m1))) < length (cache ?m1)"
      by (rule evictLRU_length_less)
    with full ev show ?thesis by (simp add: make_room_at_capacity[OF full])
  qed
  have "length (cache (snd (mem_set cfg now key dat t m)))
          \<le> Suc (length (cache (make_room cfg now ?m1)))"
    by (simp add: mem_set_cache[OF True] update_length)
  with room show ?thesis by simp
qed

text \<open>An instance: the full store of capacity two stays within its capacity.\<close>

theorem capacity_kept_without_empty_key_witness:
  "int (length (cache (snd (mem_set cfg_two 5000 ''c'' (JNum 3) 60 store_ab)))) \<le> 2"
proof -
  have wf: "distinct (map fst (cache store_ab))" by (simp add: store_ab_def)
  have cap: "1 \<le> MEMORY_SIZE cfg_two" by (simp add: cfg_two_def cfg_prod_memory_def)
  have inv: "int (length (cache store_ab)) \<le> MEMORY_SIZE cfg_two"
    by (simp add: store_ab_def cfg_two_def cfg_prod_memory_def)
  have keys: "\<forall>e \<in> set (cache store_ab). fst e \<noteq> []" by (simp add: store_ab_def)
  have low: "\<forall>e \<in> set (cache store_ab). score 5000 (snd e) < MAX_SAFE_INTEGER"
    by (simp add: store_ab_def score_item_a score_item_b MAX_SAFE_INTEGER_def)
  from capacity_kept_without_empty_key[OF wf cap inv keys low, where key = "''c''"
      and dat = "JNum 3" and t = 60]
  show ?thesis by (simp add: cfg_two_def cfg_prod_memory_def)
qed

section \<open>Properties of the Redis client\<close>



lemma run_op_unavailable:
  "isAvailable cfg (clock s) rc = (False, rc1) \<Longrightarrow>
   run_op cfg op (rc, s) = Some (safe_default op, rc1, s)"
  by (cases op)
     (simp_all add: run_op_def redis_get_def redis_setex_def redis_del_def redis_exists_def
        redis_ttl_def redis_keys_def)

lemma run_op_failure:
  assumes "isAvailable cfg (clock s) rc = (True, rc1)"
    and "fails cfg op (net s (length (sent s)))"
  shows "\<exists>rc' s'. run_op cfg op (rc, s) = Some (safe_default op, rc', s')
           \<and> failureCount rc' = failureCount rc1 + 1
           \<and> lastFailure rc' = clock s'
           \<and> circuitOpen rc'
                = (circuitOpen rc1 \<or> failureCount rc1 + 1 \<ge> CIRCUIT_FAILURE_THRESHOLD cfg)
           \<and> redisAvailable rc' = redisAvailable rc1
           \<and> redis_present rc' = redis_present rc1
           \<and> sent s' = sent s @ [command_of op]
           \<and> net s' = net s
           \<and> clock s \<le> clock s'"
  using assms
  by (cases op; cases "net s (length (sent s))")
     (auto simp: run_op_def redis_get_def redis_setex_def redis_del_def redis_exists_def
        redis_ttl_def redis_keys_def fails_def send_def await_race_def await_plain_def
        advance_def recordFailure_def recordFailedOperation_def count_operation_def Let_def)






lemmas redis_defs = run_op_def redis_get_def redis_setex_def redis_del_def redis_exists_def
  redis_ttl_def redis_keys_def isAvailable_def recordFailure_def resetCircuit_def
  recordSuccessfulOperation_def recordFailedOperation_def count_operation_def
  send_def await_race_def await_plain_def advance_def

text \<open>
  Claim C8 fails on the code for \<^verbatim>\<open>get\<close> (and likewise for \<^verbatim>\<open>exists\<close>, \<^verbatim>\<open>ttl\<close> and
  \<^verbatim>\<open>keys\<close>, none of which calls \<^verbatim>\<open>resetCircuit\<close>). Three failures open the circuit
  with failure count 3. After the cool-down a successful \<^verbatim>\<open>get\<close> leaves the circuit
  closed with failure count 2, the value \<^verbatim>\<open>isAvailable\<close> decremented it to; a
  successful \<^verbatim>\<open>setex\<close> in the same state resets the count to 0.
\<close>

theorem successful_get_keeps_failure_count:
  "(case run_ops cfg_prod_hybrid three_ops (rc_connected, io_start) of
      None \<Rightarrow> False
    | Some (rc3, s3) \<Rightarrow>
        circuitOpen rc3 \<and> failureCount rc3 = 3
        \<and> (case run_op cfg_prod_hybrid (OpGet ''k'') (rc3, advance 30000 s3) of
              None \<Rightarrow> False
            | Some (r, rc4, s4) \<Rightarrow>
                r = RValue (JStr ''v'') \<and> circuitOpen rc4 = False \<and> failureCount rc4 = 2)
        \<and> (case run_op cfg_prod_hybrid (OpSetex ''k'' 60 (JNum 1)) (rc3, advance 30000 s3) of
              None \<Rightarrow> False
            | Some (r, rc4, s4) \<Rightarrow>
                r = RBool True \<and> circuitOpen rc4 = False \<and> failureCount rc4 = 0))"
  by (simp add: three_ops_def redis_defs cfg_prod_hybrid_def rc_connected_def
      io_start_def net_three_down_def no_operations_def Let_def)

text \<open>
  Claim C9 fails on the code for \<^verbatim>\<open>del\<close>, \<^verbatim>\<open>exists\<close>, \<^verbatim>\<open>ttl\<close> and \<^verbatim>\<open>keys\<close> when the
  remote service does not answer, the outcome the claim calls a timeout. These four
  operations await the remote call without racing it against a timer, so on a connected
  client the operation never returns: it returns no safe value and records no failure.
  The sibling operations \<^verbatim>\<open>get\<close> and \<^verbatim>\<open>setex\<close> race the call against
  \<^verbatim>\<open>REDIS_TIMEOUT\<close>: after 5000 milliseconds they return \<open>null\<close> and \<open>false\<close>, and the
  failure is counted by the breaker. Of the two, only \<^verbatim>\<open>get\<close> also counts it in the
  operation metrics.
\<close>

theorem unraced_operations_never_return:
  "run_op cfg_prod_hybrid (OpDel ''k'') (rc_connected, io_silent) = None
   \<and> run_op cfg_prod_hybrid (OpExists ''k'') (rc_connected, io_silent) = None
   \<and> run_op cfg_prod_hybrid (OpTtl ''k'') (rc_connected, io_silent) = None
   \<and> run_op cfg_prod_hybrid (OpKeys ''k*'') (rc_connected, io_silent) = None
   \<and> (case run_op cfg_prod_hybrid (OpGet ''k'') (rc_connected, io_silent) of
         None \<Rightarrow> False
       | Some (r, rc', s') \<Rightarrow>
           r = RValue JNull \<and> clock s' = 6000 \<and> failureCount rc' = 1 \<and> lastFailure rc' = 6000
           \<and> failedOperations (operationMetrics rc') = 1)
   \<and> (case run_op cfg_prod_hybrid (OpSetex ''k'' 60 (JNum 1)) (rc_connected, io_silent) of
         None \<Rightarrow> False
       | Some (r, rc', s') \<Rightarrow>
           r = RBool False \<and> clock s' = 6000 \<and> failureCount rc' = 1 \<and> lastFailure rc' = 6000
           \<and> failedOperations (operationMetrics rc') = 0)"
  by (simp add: redis_defs cfg_prod_hybrid_def rc_connected_def io_silent_def
      no_operations_def Let_def)

lemma isAvailable_False_same:
  "isAvailable cfg now rc = (False, rc1) \<Longrightarrow> rc1 = rc"
  by (auto simp: isAvailable_def split: if_splits)

lemma isAvailable_metrics:
  "operationMetrics (snd (isAvailable cfg now rc)) = operationMetrics rc"
  by (simp add: isAvailable_def)

lemma redis_get_failure_metrics:
  assumes "isAvailable cfg (clock s) rc = (True, rc1)"
    and "fails cfg (OpGet key) (net s (length (sent s)))"
  shows "failedOperations (operationMetrics (fst (snd (redis_get cfg key (rc, s)))))
           = failedOperations (operationMetrics rc) + 1"
proof -
  have "operationMetrics rc1 = operationMetrics rc"
    using isAvailable_metrics[of cfg "clock s" rc] assms(1) by simp
  with assms show ?thesis
    by (cases "net s (length (sent s))")
       (auto simp: redis_get_def fails_def send_def await_race_def advance_def
          recordFailure_def recordFailedOperation_def count_operation_def Let_def)
qed

lemma run_op_returns:
  assumes "raced op \<or> net s (length (sent s)) \<noteq> Hangs"
  shows "run_op cfg op (rc, s) \<noteq> None"
  using assms
  by (cases op; cases "net s (length (sent s))"; cases "isAvailable cfg (clock s) rc")
     (auto simp: run_op_def redis_get_def redis_setex_def redis_del_def redis_exists_def
        redis_ttl_def redis_keys_def send_def await_plain_def Let_def
        split: prod.splits settled.splits)

lemma isAvailable_count:
  "fst (isAvailable cfg now rc) \<Longrightarrow>
   failureCount (snd (isAvailable cfg now rc))
     = (if ENABLE_CIRCUIT_BREAKER cfg \<and> circuitOpen rc then max 0 (failureCount rc - 1)
        else failureCount rc)"
  by (simp add: isAvailable_def split: if_splits)

text \<open>
  What the six operations do when they return. No operation throws: its result is a
  value of its result type. When the client is unavailable (not initialised, or the
  circuit open and cooling down) the operation returns its safe value (\<open>null\<close>,
  \<open>false\<close>, \<open>-1\<close>, the empty list) and changes nothing. When the client is available
  and the remote call fails (it rejects or, for \<^verbatim>\<open>get\<close> and \<^verbatim>\<open>setex\<close>, has not settled
  when the timer fires) the operation returns its safe value, \<open>lastFailureAt\<close> is the
  current time, and the failure count is one more than the count the availability check
  left: the count before the call or, when this call is the one that closes an open
  circuit after its cool-down, that count less one (not below zero). \<^verbatim>\<open>get\<close> also
  counts a failed operation in the operation metrics. \<^verbatim>\<open>get\<close> and \<^verbatim>\<open>setex\<close> always
  return; the other four return whenever the remote call settles.
\<close>

theorem remote_ops_return_safe_values:
  "(\<not> fst (isAvailable cfg (clock s) rc) \<longrightarrow>
      run_op cfg op (rc, s) = Some (safe_default op, rc, s))
   \<and> (fst (isAvailable cfg (clock s) rc) \<and> fails cfg op (net s (length (sent s))) \<longrightarrow>
      (\<exists>rc' s'. run_op cfg op (rc, s) = Some (safe_default op, rc', s')
         \<and> failureCount rc'
             = (if ENABLE_CIRCUIT_BREAKER cfg \<and> circuitOpen rc then max 0 (failureCount rc - 1)
                else failureCount rc) + 1
         \<and> lastFailure rc' = clock s'
         \<and> (\<forall>key. op = OpGet key \<longrightarrow>
               failedOperations (operationMetrics rc')
                 = failedOperations (operationMetrics rc) + 1)))
   \<and> (raced op \<or> net s (length (sent s)) \<noteq> Hangs \<longrightarrow> run_op cfg op (rc, s) \<noteq> None)"
proof (intro conjI impI)
  assume "\<not> fst (isAvailable cfg (clock s) rc)"
  then have un: "isAvailable cfg (clock s) rc = (False, snd (isAvailable cfg (clock s) rc))"
    by (cases "isAvailable cfg (clock s) rc") simp
  then have "snd (isAvailable cfg (clock s) rc) = rc" by (rule isAvailable_False_same)
  with run_op_unavailable[OF un] show "run_op cfg op (rc, s) = Some (safe_default op, rc, s)"
    by simp
next
  let ?rc1 = "snd (isAvailable cfg (clock s) rc)"
  assume "fst (isAvailable cfg (clock s) rc) \<and> fails cfg op (net s (length (sent s)))"
  then have a: "fst (isAvailable cfg (clock s) rc)"
    and f: "fails cfg op (net s (length (sent s)))" by simp_all
  from a have av: "isAvailable cfg (clock s) rc = (True, ?rc1)"
    by (cases "isAvailable cfg (clock s) rc") simp
  from run_op_failure[OF av f] obtain rc' s' where
    r: "run_op cfg op (rc, s) = Some (safe_default op, rc', s')"
    and c: "failureCount rc' = failureCount ?rc1 + 1" and l: "lastFailure rc' = clock s'"
    by blast
  have "failedOperations (operationMetrics rc') = failedOperations (operationMetrics rc) + 1"
    if "op = OpGet key" for key
  proof -
    from r that have "rc' = fst (snd (redis_get cfg key (rc, s)))"
      by (auto simp: run_op_def split: prod.splits)
    with redis_get_failure_metrics[OF av] f that show ?thesis by simp
  qed
  with r c l isAvailable_count[OF a]
  show "\<exists>rc' s'. run_op cfg op (rc, s) = Some (safe_default op, rc', s')
         \<and> failureCount rc'
             = (if ENABLE_CIRCUIT_BREAKER cfg \<and> circuitOpen rc then max 0 (failureCount rc - 1)
                else failureCount rc) + 1
         \<and> lastFailure rc' = clock s'
         \<and> (\<forall>key. op = OpGet key \<longrightarrow>
               failedOperations (operationMetrics rc')
                 = failedOperations (operationMetrics rc) + 1)"
    by auto
next
  assume "raced op \<or> net s (length (sent s)) \<noteq> Hangs"
  then show "run_op cfg op (rc, s) \<noteq> None" by (rule run_op_returns)
qed

text \<open>
  An instance: an unavailable client, a rejected \<^verbatim>\<open>get\<close>, \<^verbatim>\<open>setex\<close> returning, and a
  rejected \<^verbatim>\<open>get\<close> that is the first call after the cool-down of an open circuit (the
  failure count is 3 before and 3 after).
\<close>

theorem remote_ops_return_safe_values_witness:
  "run_op cfg_prod_hybrid (OpTtl ''k'') (rc_unavailable, io_down)
     = Some (RInt (- 1), rc_unavailable, io_down)
   \<and> (\<exists>rc' s'. run_op cfg_prod_hybrid (OpGet ''k'') (rc_connected, io_down)
                   = Some (RValue JNull, rc', s')
         \<and> failureCount rc' = 1 \<and> lastFailure rc' = clock s'
         \<and> failedOperations (operationMetrics rc') = 1)
   \<and> run_op cfg_prod_hybrid (OpSetex ''k'' 60 (JNum 1)) (rc_connected, io_down) \<noteq> None
   \<and> (\<exists>rc' s'. run_op cfg_prod_hybrid (OpGet ''k'') (rc_open, advance 30000 io_down)
                   = Some (RValue JNull, rc', s')
         \<and> failureCount rc' = 3 \<and> lastFailure rc' = clock s')"
proof -
  have un: "\<not> fst (isAvailable cfg_prod_hybrid (clock io_down) rc_unavailable)"
    by (simp add: isAvailable_def rc_unavailable_def)
  have av: "fst (isAvailable cfg_prod_hybrid (clock io_down) rc_connected)"
    by (simp add: isAvailable_def rc_connected_def)
  have f: "fails cfg_prod_hybrid (OpGet ''k'') (net io_down (length (sent io_down)))"
    by (simp add: fails_def io_down_def)
  have r: "raced (OpSetex ''k'' 60 (JNum 1))" by simp
  have c: "failureCount rc_connected = 0" "failedOperations (operationMetrics rc_connected) = 0"
    "\<not> circuitOpen rc_connected"
    by (simp_all add: rc_connected_def no_operations_def)
  from remote_ops_return_safe_values[where cfg = cfg_prod_hybrid and s = io_down
      and rc = rc_unavailable and op = "OpTtl ''k''"] un
  have one: "run_op cfg_prod_hybrid (OpTtl ''k'') (rc_unavailable, io_down)
     = Some (RInt (- 1), rc_unavailable, io_down)" by simp
  from remote_ops_return_safe_values[where cfg = cfg_prod_hybrid and s = io_down
      and rc = rc_connected and op = "OpGet ''k''"] av f c
  have two: "\<exists>rc' s'. run_op cfg_prod_hybrid (OpGet ''k'') (rc_connected, io_down)
                   = Some (RValue JNull, rc', s')
         \<and> failureCount rc' = 1 \<and> lastFailure rc' = clock s'
         \<and> failedOperations (operationMetrics rc') = 1" by simp
  from remote_ops_return_safe_values[where cfg = cfg_prod_hybrid and s = io_down
      and rc = rc_connected and op = "OpSetex ''k'' 60 (JNum 1)"] r
  have three: "run_op cfg_prod_hybrid (OpSetex ''k'' 60 (JNum 1)) (rc_connected, io_down) \<noteq> None"
    by blast
  have av4: "fst (isAvailable cfg_prod_hybrid (clock (advance 30000 io_down)) rc_open)"
    by (simp add: isAvailable_def rc_open_def advance_def io_down_def cfg_prod_hybrid_def)
  have f4: "fails cfg_prod_hybrid (OpGet ''k'')
              (net (advance 30000 io_down) (length (sent (advance 30000 io_down))))"
    by (simp add: fails_def io_down_def advance_def)
  have c4: "failureCount rc_open = 3" "circuitOpen rc_open" "ENABLE_CIRCUIT_BREAKER cfg_prod_hybrid"
    by (simp_all add: rc_open_def cfg_prod_hybrid_def)
  from remote_ops_return_safe_values[where cfg = cfg_prod_hybrid and s = "advance 30000 io_down"
      and rc = rc_open and op = "OpGet ''k''"] av4 f4 c4
  have four: "\<exists>rc' s'. run_op cfg_prod_hybrid (OpGet ''k'') (rc_open, advance 30000 io_down)
                   = Some (RValue JNull, rc', s')
         \<and> failureCount rc' = 3 \<and> lastFailure rc' = clock s'" by auto
  from one two three four show ?thesis by blast
qed

section \<open>Properties of the orchestrator\<close>

lemma call_fetcher_frame:
  "memory (snd (call_fetcher p w)) = memory w"
  "redis (snd (call_fetcher p w)) = redis w"
  "traffic (snd (call_fetcher p w)) = traffic w"
  "metrics (snd (call_fetcher p w)) = metrics w"
  "sent (wio (snd (call_fetcher p w))) = sent (wio w)"
  "net (wio (snd (call_fetcher p w))) = net (wio w)"
  "pcalls (snd (call_fetcher p w)) = Suc (pcalls w)"
  "fst (call_fetcher p w) = snd (p (pcalls w))"
  "clock (wio (snd (call_fetcher p w))) = clock (wio w) + int (fst (p (pcalls w)))"
  by (simp_all add: call_fetcher_def advance_def split: prod.split)

lemma record_error_frame:
  "memory (record_error cfg w) = memory w"
  "redis (record_error cfg w) = redis w"
  "traffic (record_error cfg w) = traffic w"
  "wio (record_error cfg w) = wio w"
  "pcalls (record_error cfg w) = pcalls w"
  by (simp_all add: record_error_def)

lemma record_miss_frame:
  "memory (record_miss cfg t w) = memory w"
  "redis (record_miss cfg t w) = redis w"
  "traffic (record_miss cfg t w) = traffic w"
  "wio (record_miss cfg t w) = wio w"
  "pcalls (record_miss cfg t w) = pcalls w"
  by (simp_all add: record_miss_def)

lemma record_hit_frame:
  "memory (record_hit cfg t w) = memory w"
  "redis (record_hit cfg t w) = redis w"
  "traffic (record_hit cfg t w) = traffic w"
  "wio (record_hit cfg t w) = wio w"
  "pcalls (record_hit cfg t w) = pcalls w"
  by (simp_all add: record_hit_def)

lemma recordMiss_misses:
  "ENABLE_METRICS cfg \<Longrightarrow> misses (recordMiss cfg t pm) = misses pm + 1"
  by (simp add: recordMiss_def recordResponseTime_def Let_def)

text \<open>
  The count that \<^verbatim>\<open>track\<close> returns is the number of the key's recorded requests that
  lie inside the window, plus the present request.
\<close>

lemma track_count:
  "fst (track cfg now key tr) = Suc (getCurrentCount cfg now key tr)"
  by (simp add: track_def getCurrentCount_def in_window_def cleanupEndpoint_def Let_def
      split: option.split prod.split)

text \<open>The low-traffic path of the try block.\<close>

lemma fetch_try_cold:
  assumes "CACHE_MODE cfg \<noteq> DISABLED"
    and "ENABLE_TRAFFIC_DETECTION cfg" and "traffic w = Some tr"
    and "\<not> forceCaching co"
    and "int (fst (track cfg (clock (wio w)) key tr))
           < effective_threshold cfg (Some (minTrafficCount co))"
  shows "fetch_try cfg key p co start w =
           (let w1 = w\<lparr>traffic := Some (snd (track cfg (clock (wio w)) key tr))\<rparr>;
                (r, w2) = call_fetcher p w1
            in case r of Inl e \<Rightarrow> (Inl e, w2) | Inr dat \<Rightarrow> (Inr dat, record_miss cfg start w2))"
  using assms
  by (simp add: fetch_try_def isHighTraffic_def Let_def case_prod_beta)

text \<open>
  Claim C3, amended. With \<open>forceCaching\<close> false and traffic detection enabled, a call of
  \<^verbatim>\<open>fetch\<close> for a key whose request count in the sliding window (this request
  included) is strictly below the effective \<open>minTrafficCount\<close> threshold invokes the
  producer, and writes nothing into the memory tier or the remote tier (no request is
  sent to the remote service at all). When the producer returns a value, \<^verbatim>\<open>fetch\<close>
  returns it after exactly one invocation, and it records a miss (the miss counter goes
  up by one) provided that metrics are enabled and the cache mode is not DISABLED.
\<close>

theorem cold_key_bypasses_cache:
  assumes detect: "ENABLE_TRAFFIC_DETECTION cfg" "traffic w = Some tr"
    and unforced: "\<not> forceCaching (parse_options cfg opts)"
    and cold: "int (fst (track cfg (clock (wio w)) key tr))
                 < effective_threshold cfg (Some (minTrafficCount (parse_options cfg opts)))"
  shows "pcalls w < pcalls (snd (fetch cfg key p opts w))
       \<and> memory (snd (fetch cfg key p opts w)) = memory w
       \<and> redis (snd (fetch cfg key p opts w)) = redis w
       \<and> sent (wio (snd (fetch cfg key p opts w))) = sent (wio w)
       \<and> (\<forall>d v. p (pcalls w) = (d, Inr v) \<longrightarrow>
             fst (fetch cfg key p opts w) = Inr v
             \<and> pcalls (snd (fetch cfg key p opts w)) = Suc (pcalls w)
             \<and> (CACHE_MODE cfg \<noteq> DISABLED \<and> ENABLE_METRICS cfg \<longrightarrow>
                  (\<forall>pm. metrics w = Some pm \<longrightarrow>
                     (\<exists>pm'. metrics (snd (fetch cfg key p opts w)) = Some pm'
                            \<and> misses pm' = misses pm + 1))))"
proof (cases "CACHE_MODE cfg = DISABLED")
  case True
  then have body: "fetch_try cfg key p (parse_options cfg opts) (clock (wio w)) w = call_fetcher p w"
    by (simp add: fetch_try_def)
  show ?thesis
    using True
    by (cases "snd (p (pcalls w))")
       (auto simp: fetch_def body Let_def call_fetcher_frame record_error_frame
          split: prod.split sum.split
          simp: call_fetcher_def advance_def record_error_def)
next
  case False
  let ?w1 = "w\<lparr>traffic := Some (snd (track cfg (clock (wio w)) key tr))\<rparr>"
  have body: "fetch_try cfg key p (parse_options cfg opts) (clock (wio w)) w =
           (let (r, w2) = call_fetcher p ?w1
            in case r of Inl e \<Rightarrow> (Inl e, w2)
               | Inr dat \<Rightarrow> (Inr dat, record_miss cfg (clock (wio w)) w2))"
    using fetch_try_cold[OF False detect unforced cold] by (simp add: Let_def)
  show ?thesis
  proof (cases "snd (p (pcalls w))")
    case (Inl e)
    then show ?thesis
      by (auto simp: fetch_def body Let_def call_fetcher_def advance_def record_error_def
            split: prod.split sum.split)
  next
    case (Inr v)
    then show ?thesis
      by (auto simp: fetch_def body Let_def call_fetcher_def advance_def record_miss_def
            recordMiss_misses split: prod.split sum.split)
  qed
qed

lemma mem_set_stores:
  assumes "estimateSize dat \<le> MAX_VALUE_SIZE cfg"
  shows "map_of (cache (snd (mem_set cfg now key dat t m))) key = Some (new_item cfg now dat t)"
  by (simp add: mem_set_cache[OF assms] update_conv')

lemma mem_get_truthy:
  assumes "truthy (fst (mem_get now key m))"
  shows "\<exists>item. map_of (cache (snd (mem_get now key m))) key = Some item
           \<and> data item = fst (mem_get now key m) \<and> now \<le> expires item"
  using assms
  by (auto simp: mem_get_def update_conv' split: option.splits if_splits)

lemma mem_get_hit:
  assumes "map_of (cache m) key = Some item" and "now \<le> expires item"
  shows "mem_get now key m =
           (data item,
            m\<lparr>cache := AList.update key
                 (item\<lparr>lastAccess := now, hitCount := hitCount item + 1\<rparr>) (cache m)\<rparr>)"
  using assms by (simp add: mem_get_def)

lemma memory_lookup_frame:
  "pcalls (snd (memory_lookup cfg k w)) = pcalls w"
  "redis (snd (memory_lookup cfg k w)) = redis w"
  "wio (snd (memory_lookup cfg k w)) = wio w"
  by (simp_all add: memory_lookup_def case_prod_beta split: option.split)

lemma memory_lookup_on:
  assumes "ENABLE_MEMORY cfg" and "memory w = Some m"
  shows "memory_lookup cfg k w =
           (fst (mem_get (clock (wio w)) k m), w\<lparr>memory := Some (snd (mem_get (clock (wio w)) k m))\<rparr>)"
  using assms by (simp add: memory_lookup_def case_prod_beta)

lemma redis_lookup_frame:
  "pcalls (snd (redis_lookup cfg k w)) = pcalls w"
  "memory (snd (redis_lookup cfg k w)) = memory w"
  by (simp_all add: redis_lookup_def case_prod_beta split: option.split)

lemma store_redis_frame:
  "pcalls (store_redis cfg k dat t w) = pcalls w"
  "memory (store_redis cfg k dat t w) = memory w"
  by (simp_all add: store_redis_def case_prod_beta split: option.split)

lemma store_memory_frame:
  "pcalls (store_memory cfg k dat t w) = pcalls w"
  by (simp add: store_memory_def split: option.split)

lemma store_memory_on:
  assumes "ENABLE_MEMORY cfg" and "memory w = Some m"
  shows "memory (store_memory cfg k dat t w)
           = Some (snd (mem_set cfg (clock (wio w)) k dat (min t (MEMORY_TTL_MAX cfg)) m))"
  using assms by (simp add: store_memory_def)

lemma promote_on:
  assumes "memory w = Some m"
  shows "memory (promote cfg k dat t w)
           = Some (snd (mem_set cfg (clock (wio w)) k dat (min t (MEMORY_TTL_MAX cfg)) m))"
    and "pcalls (promote cfg k dat t w) = pcalls w"
  using assms by (simp_all add: promote_def)

text \<open>What a successful pass through the layers leaves in the memory cache.\<close>

lemma layers_leave_entry:
  assumes on: "ENABLE_MEMORY cfg" "memory w = Some m"
    and res: "fetchFromCacheLayers cfg k p mt rt start w = (Inr v, w1)"
    and ok: "truthy v" "estimateSize v \<le> MAX_VALUE_SIZE cfg"
  shows "\<exists>m1 item. memory w1 = Some m1 \<and> map_of (cache m1) k = Some item \<and> data item = v
           \<and> pcalls w1 \<le> Suc (pcalls w)"
proof -
  let ?now = "clock (wio w)"
  let ?d = "fst (mem_get ?now k m)"
  let ?m' = "snd (mem_get ?now k m)"
  let ?w1 = "w\<lparr>memory := Some ?m'\<rparr>"
  have ml: "memory_lookup cfg k w = (?d, ?w1)" using on by (rule memory_lookup_on)
  show ?thesis
  proof (cases "truthy ?d")
    case True
    with res ml have v: "v = ?d" and w1: "w1 = record_hit cfg start ?w1"
      by (auto simp: fetchFromCacheLayers_def)
    from mem_get_truthy[OF True] obtain item where
      "map_of (cache ?m') k = Some item" "data item = ?d" by blast
    with v w1 show ?thesis by (simp add: record_hit_frame)
  next
    case False
    let ?rd = "fst (redis_lookup cfg k ?w1)"
    let ?w2 = "snd (redis_lookup cfg k ?w1)"
    have m2: "memory ?w2 = Some ?m'" and p2: "pcalls ?w2 = pcalls w"
      by (simp_all add: redis_lookup_frame)
    show ?thesis
    proof (cases "truthy ?rd")
      case True
      with res ml False have v: "v = ?rd"
        and w1: "w1 = record_hit cfg start (promote cfg k ?rd mt ?w2)"
        by (auto simp: fetchFromCacheLayers_def case_prod_beta)
      from ok(2) v have fits: "estimateSize ?rd \<le> MAX_VALUE_SIZE cfg" by simp
      show ?thesis
        unfolding w1 v
        by (simp add: record_hit_frame promote_on[OF m2] mem_set_stores[OF fits] new_item_def p2)
    next
      case nohit: False
      let ?r = "fst (call_fetcher p ?w2)"
      let ?w3 = "snd (call_fetcher p ?w2)"
      from res ml False nohit have r: "?r = Inr v"
        and w1: "w1 = record_miss cfg start (storeInCacheLayers cfg k v mt rt ?w3)"
        by (auto simp: fetchFromCacheLayers_def case_prod_beta split: sum.splits)
      have m3: "memory ?w3 = Some ?m'" and p3: "pcalls ?w3 = Suc (pcalls w)"
        by (simp_all add: call_fetcher_frame m2 p2)
      show ?thesis
        unfolding w1
        by (simp add: record_miss_frame storeInCacheLayers_def store_redis_frame
              store_memory_frame store_memory_on[OF on(1) m3] mem_set_stores[OF ok(2)]
              new_item_def p3)
    qed
  qed
qed

lemma layers_throw:
  assumes "fetchFromCacheLayers cfg k p mt rt start w = (Inl e, w1)"
  shows "snd (p (pcalls w)) = Inl e"
proof -
  let ?w1 = "snd (memory_lookup cfg k w)"
  let ?w2 = "snd (redis_lookup cfg k ?w1)"
  from assms have "fst (call_fetcher p ?w2) = Inl e"
    by (auto simp: fetchFromCacheLayers_def case_prod_beta Let_def split: if_splits sum.splits)
  then show ?thesis
    by (simp add: call_fetcher_frame redis_lookup_frame memory_lookup_frame)
qed

lemma layers_memory_hit:
  assumes "ENABLE_MEMORY cfg" and "memory w = Some m"
    and "map_of (cache m) k = Some item" and "clock (wio w) \<le> expires item"
    and "truthy (data item)"
  shows "fst (fetchFromCacheLayers cfg k p mt rt start w) = Inr (data item)"
    and "pcalls (snd (fetchFromCacheLayers cfg k p mt rt start w)) = pcalls w"
  using assms
  by (simp_all add: fetchFromCacheLayers_def memory_lookup_on mem_get_hit record_hit_frame)

lemma fetch_try_forced:
  assumes "CACHE_MODE cfg \<noteq> DISABLED" and "forceCaching co"
  shows "fetch_try cfg key p co start w =
           fetchFromCacheLayers cfg (''ez:'' @ key) p (ttl co)
             (if ENABLE_REDIS cfg then ttl co * 10 else ttl co) start w"
  using assms by (simp add: fetch_try_def Let_def)

lemma fetch_forced:
  assumes "CACHE_MODE cfg \<noteq> DISABLED" and "forceCaching (parse_options cfg opts)"
  shows "fetch cfg key p opts w =
           (let co = parse_options cfg opts;
                res = fetchFromCacheLayers cfg (''ez:'' @ key) p (ttl co)
                        (if ENABLE_REDIS cfg then ttl co * 10 else ttl co) (clock (wio w)) w
            in case fst res of
                 Inr dat \<Rightarrow> (Inr dat, snd res)
               | Inl e \<Rightarrow> call_fetcher p (record_error cfg (snd res)))"
  by (simp add: fetch_def fetch_try_forced[OF assms] Let_def case_prod_beta split: sum.split)

lemma memory_on_not_disabled: "ENABLE_MEMORY cfg \<Longrightarrow> CACHE_MODE cfg \<noteq> DISABLED"
  by (simp add: CACHE_MODE_def)

lemma layers_miss_invokes:
  assumes "ENABLE_MEMORY cfg" and "memory w = Some m" and "map_of (cache m) k = None"
    and "\<not> ENABLE_REDIS cfg"
  shows "pcalls (snd (fetchFromCacheLayers cfg k p mt rt start w)) = Suc (pcalls w)"
  using assms
  by (simp add: fetchFromCacheLayers_def memory_lookup_on mem_get_def redis_lookup_def
        case_prod_beta call_fetcher_frame record_miss_frame storeInCacheLayers_def
        store_redis_frame store_memory_frame
      split: option.split sum.split)

text \<open>
  Claim C2, amended. With the memory tier enabled, let \<^verbatim>\<open>fetch(k, p, {forceCaching: true})\<close>
  return a truthy value \<open>v\<close> whose estimated size does not exceed \<^verbatim>\<open>MAX_VALUE_SIZE\<close>,
  the producer's invocation (if any) not throwing. Then the call has invoked \<open>p\<close> at most
  once (exactly once if the key was absent from the memory tier and the remote tier is
  disabled), the memory tier now holds an entry for the key with value \<open>v\<close>, and a
  second call made before that entry expires returns \<open>v\<close> without invoking \<open>p\<close>.
\<close>

theorem forced_fetch_second_call_hits:
  assumes on: "ENABLE_MEMORY cfg" "memory w = Some m"
    and forced: "forceCaching (parse_options cfg opts)"
    and returns: "\<exists>x. snd (p (pcalls w)) = Inr x"
    and first: "fetch cfg key p opts w = (Inr v, w1)"
    and ok: "truthy v" "estimateSize v \<le> MAX_VALUE_SIZE cfg"
  shows "pcalls w1 \<le> Suc (pcalls w)
       \<and> (map_of (cache m) (''ez:'' @ key) = None \<and> \<not> ENABLE_REDIS cfg
            \<longrightarrow> pcalls w1 = Suc (pcalls w))
       \<and> (\<exists>m1 item.
             memory w1 = Some m1 \<and> map_of (cache m1) (''ez:'' @ key) = Some item
             \<and> data item = v
             \<and> (\<forall>d. clock (wio w1) + int d \<le> expires item \<longrightarrow>
                   fst (fetch cfg key p opts (w1\<lparr>wio := advance d (wio w1)\<rparr>)) = Inr v
                   \<and> pcalls (snd (fetch cfg key p opts (w1\<lparr>wio := advance d (wio w1)\<rparr>)))
                       = pcalls w1))"
proof -
  let ?co = "parse_options cfg opts"
  let ?k = "''ez:'' @ key"
  let ?rt = "if ENABLE_REDIS cfg then ttl ?co * 10 else ttl ?co"
  let ?res = "fetchFromCacheLayers cfg ?k p (ttl ?co) ?rt (clock (wio w)) w"
  have mode: "CACHE_MODE cfg \<noteq> DISABLED" using on(1) by (rule memory_on_not_disabled)
  have nothrow: "fst ?res \<noteq> Inl e" for e
  proof
    assume "fst ?res = Inl e"
    then have "?res = (Inl e, snd ?res)" by (cases ?res) simp
    then have "snd (p (pcalls w)) = Inl e" by (rule layers_throw)
    with returns show False by auto
  qed
  then obtain v' where v': "fst ?res = Inr v'" by (cases "fst ?res") auto
  with first have "v' = v" and w1: "w1 = snd ?res"
    by (simp_all add: fetch_forced[OF mode forced] Let_def)
  with v' have res: "?res = (Inr v, w1)" by (cases ?res) simp
  from layers_leave_entry[OF on res ok] obtain m1 item where
    m1: "memory w1 = Some m1" and look: "map_of (cache m1) ?k = Some item"
    and dat: "data item = v" and calls: "pcalls w1 \<le> Suc (pcalls w)"
    by blast
  have once: "pcalls w1 = Suc (pcalls w)"
    if "map_of (cache m) ?k = None" "\<not> ENABLE_REDIS cfg"
    unfolding w1 using on that by (rule layers_miss_invokes)
  have again: "fst (fetch cfg key p opts (w1\<lparr>wio := advance d (wio w1)\<rparr>)) = Inr v
        \<and> pcalls (snd (fetch cfg key p opts (w1\<lparr>wio := advance d (wio w1)\<rparr>))) = pcalls w1"
    if live: "clock (wio w1) + int d \<le> expires item" for d
  proof -
    let ?w2 = "w1\<lparr>wio := advance d (wio w1)\<rparr>"
    let ?res2 = "fetchFromCacheLayers cfg ?k p (ttl ?co) ?rt (clock (wio ?w2)) ?w2"
    have m2: "memory ?w2 = Some m1" using m1 by simp
    have live2: "clock (wio ?w2) \<le> expires item" using live by (simp add: advance_def)
    have t: "truthy (data item)" using dat ok(1) by simp
    have "fst ?res2 = Inr v" and "pcalls (snd ?res2) = pcalls w1"
      using layers_memory_hit[OF on(1) m2 look live2 t] dat by simp_all
    then show ?thesis by (simp add: fetch_forced[OF mode forced] Let_def)
  qed
  from calls once m1 look dat again show ?thesis by blast
qed

lemmas memory_defs = mem_set_def mem_get_def mem_delete_def cleanupExpired_def
  estimateSize_def number_len_def quoted_len_def esc_len_def dec_len.simps

lemmas fetch_defs = fetch_def fetch_try_def fetchFromCacheLayers_def storeInCacheLayers_def
  store_memory_def store_redis_def memory_lookup_def redis_lookup_def promote_def
  call_fetcher_def parse_options_def getSmartTrafficThreshold_def CACHE_MODE_def
  record_hit_def record_miss_def record_error_def recordHit_def recordMiss_def recordError_def
  recordResponseTime_def isHighTraffic_def effective_threshold_def track_def in_window_def
  cleanupEndpoint_def globalCleanup_def advance_def

lemmas example_defs = cfg_prod_memory_def empty_store_def no_metrics_def
  w_memory_def constant_producer_def forced_def

text \<open>
  Claim C1 fails on the code. The producer call sits inside the \<^verbatim>\<open>try\<close> block whose
  handler ends in \<^verbatim>\<open>return await fetcher()\<close>, so a producer that throws is invoked a
  second time. A producer that throws once and then returns 42 makes \<^verbatim>\<open>fetch\<close> return
  42 after two invocations; a producer that always throws is invoked twice, and the
  caller receives the error of the second invocation.
\<close>

theorem fetch_retries_throwing_producer:
  "fst (fetch cfg_prod_memory ''k'' flaky_producer NoOptions w_memory) = Inr (JNum 42)
   \<and> pcalls (snd (fetch cfg_prod_memory ''k'' flaky_producer NoOptions w_memory)) = 2
   \<and> fst (fetch cfg_prod_memory ''k'' failing_producer forced w_memory) = Inl ''Database error''
   \<and> pcalls (snd (fetch cfg_prod_memory ''k'' failing_producer forced w_memory)) = 2"
  by (simp add: fetch_defs example_defs memory_defs flaky_producer_def failing_producer_def
      Let_def)

text \<open>
  Claim C2 as stated fails for a producer whose value is larger than
  \<^verbatim>\<open>MAX_VALUE_SIZE\<close>: the memory cache declines to store it, so with no remote tier
  the second forced call invokes the producer again. The value is a string of 524288
  characters, estimated at 1048580 bytes against the default limit of 1048576.
\<close>

lemma big_value_size: "estimateSize big_value = 1048580"
  by (simp add: big_value_def estimateSize_def quoted_len_def esc_len_def sum_list_replicate)

lemma big_value_truthy: "truthy big_value"
  by (simp add: big_value_def)

theorem forced_fetch_oversize_counterexample:
  "estimateSize big_value = 1048580
   \<and> MAX_VALUE_SIZE cfg_prod_memory = 1048576
   \<and> fst (fetch cfg_prod_memory ''k'' (constant_producer big_value) forced w_memory)
       = Inr big_value
   \<and> pcalls (snd (fetch cfg_prod_memory ''k'' (constant_producer big_value) forced
                     w_memory)) = 1
   \<and> fst (fetch cfg_prod_memory ''k'' (constant_producer big_value) forced
            (snd (fetch cfg_prod_memory ''k'' (constant_producer big_value) forced
                    w_memory)))
       = Inr big_value
   \<and> pcalls (snd (fetch cfg_prod_memory ''k'' (constant_producer big_value) forced
                     (snd (fetch cfg_prod_memory ''k'' (constant_producer big_value)
                             forced w_memory)))) = 2"
  by (simp add: fetch_defs example_defs mem_set_def mem_get_def mem_delete_def
      cleanupExpired_def big_value_size big_value_truthy Let_def)

text \<open>An instance: a first forced call at time 1000 and a second one sixty seconds later.\<close>

theorem forced_fetch_second_call_hits_witness:
  "fst (fetch cfg_prod_memory ''k'' (constant_producer (JNum 42)) forced w_memory)
     = Inr (JNum 42)
   \<and> pcalls (snd (fetch cfg_prod_memory ''k'' (constant_producer (JNum 42)) forced w_memory)) = 1
   \<and> fst (fetch cfg_prod_memory ''k'' (constant_producer (JNum 42)) forced
            ((snd (fetch cfg_prod_memory ''k'' (constant_producer (JNum 42)) forced w_memory))
               \<lparr>wio := advance 60000
                  (wio (snd (fetch cfg_prod_memory ''k'' (constant_producer (JNum 42)) forced
                               w_memory)))\<rparr>))
       = Inr (JNum 42)
   \<and> pcalls (snd (fetch cfg_prod_memory ''k'' (constant_producer (JNum 42)) forced
            ((snd (fetch cfg_prod_memory ''k'' (constant_producer (JNum 42)) forced w_memory))
               \<lparr>wio := advance 60000
                  (wio (snd (fetch cfg_prod_memory ''k'' (constant_producer (JNum 42)) forced
                               w_memory)))\<rparr>))) = 1"
proof -
  let ?p = "constant_producer (JNum 42)"
  let ?w1 = "snd (fetch cfg_prod_memory ''k'' ?p forced w_memory)"
  have on: "ENABLE_MEMORY cfg_prod_memory" "memory w_memory = Some (empty_store 1000)"
    by (simp_all add: example_defs)
  have forced: "forceCaching (parse_options cfg_prod_memory forced)"
    by (simp add: parse_options_def forced_def)
  have returns: "\<exists>x. snd (?p (pcalls w_memory)) = Inr x" by (simp add: constant_producer_def)
  have r1: "fst (fetch cfg_prod_memory ''k'' ?p forced w_memory) = Inr (JNum 42)"
    by (simp add: fetch_defs example_defs memory_defs make_room_below Let_def)
  then have first: "fetch cfg_prod_memory ''k'' ?p forced w_memory = (Inr (JNum 42), ?w1)"
    by (cases "fetch cfg_prod_memory ''k'' ?p forced w_memory") simp
  have ok: "truthy (JNum 42)" "estimateSize (JNum 42) \<le> MAX_VALUE_SIZE cfg_prod_memory"
    by (simp_all add: example_defs memory_defs)
  have fresh: "map_of (cache (empty_store 1000)) (''ez:'' @ ''k'') = None
               \<and> \<not> ENABLE_REDIS cfg_prod_memory"
    by (simp add: example_defs)
  have stored: "memory ?w1
              = Some \<lparr>cache = [(''ez:k'', new_item cfg_prod_memory 1005 (JNum 42) 60)],
                      totalSize = 4, lastCleanup = 1000\<rparr>"
    by (simp add: fetch_defs example_defs memory_defs make_room_below new_item_def Let_def)
  have c1: "clock (wio ?w1) = 1005"
    by (simp add: fetch_defs example_defs memory_defs make_room_below Let_def)
  from forced_fetch_second_call_hits[OF on forced returns first ok] fresh
  obtain m1 item where calls: "pcalls ?w1 = Suc (pcalls w_memory)"
    and mem: "memory ?w1 = Some m1"
    and look: "map_of (cache m1) (''ez:'' @ ''k'') = Some item"
    and again: "\<forall>d. clock (wio ?w1) + int d \<le> expires item \<longrightarrow>
                   fst (fetch cfg_prod_memory ''k'' ?p forced (?w1\<lparr>wio := advance d (wio ?w1)\<rparr>))
                     = Inr (JNum 42)
                   \<and> pcalls (snd (fetch cfg_prod_memory ''k'' ?p forced
                                     (?w1\<lparr>wio := advance d (wio ?w1)\<rparr>))) = pcalls ?w1"
    by blast
  from mem look stored have "item = new_item cfg_prod_memory 1005 (JNum 42) 60" by auto
  then have "expires item = 61005" by (simp add: new_item_def example_defs)
  with c1 have "clock (wio ?w1) + int 60000 \<le> expires item" by simp
  with again have "fst (fetch cfg_prod_memory ''k'' ?p forced (?w1\<lparr>wio := advance 60000 (wio ?w1)\<rparr>))
                     = Inr (JNum 42)
                   \<and> pcalls (snd (fetch cfg_prod_memory ''k'' ?p forced
                                     (?w1\<lparr>wio := advance 60000 (wio ?w1)\<rparr>))) = pcalls ?w1"
    by blast
  with r1 calls show ?thesis by (simp add: w_memory_def)
qed

text \<open>
  The boundaries of the traffic gate, with a threshold of two requests and the window of
  60000 milliseconds. The first request (at time 1000) bypasses the cache. A second
  request at time 60999 is the second one inside the window, reaches the threshold and
  is cached; a second request at time 61000 finds the first one outside the window,
  is again the only one, and bypasses the cache.
\<close>

lemma w_first_eq:
  "w_first =
     \<lparr>memory = Some (empty_store 1000),
      traffic = Some \<lparr>requests = [(''k'', \<lparr>timestamps = [1000], lastCleanup_td = 1000,
                                         totalRequests = 1\<rparr>)],
                      lastGlobalCleanup = 1000\<rparr>,
      redis = None,
      metrics = Some (no_metrics\<lparr>misses := 1, totalRequests_pm := 1, avgResponseTime_pm := 5,
                                 responseTimes := [5]\<rparr>),
      wio = \<lparr>clock = 1005, net = (\<lambda>n. Hangs), sent = []\<rparr>,
      pcalls = 1\<rparr>"
  by (simp add: w_first_def gated_def fetch_defs example_defs double_defs Let_def)

theorem traffic_gate_boundary:
  "memory w_first = Some (empty_store 1000) \<and> pcalls w_first = 1
   \<and> (case memory (snd (fetch cfg_prod_memory ''k'' (constant_producer (JNum 42)) gated
                          (w_first\<lparr>wio := advance 59994 (wio w_first)\<rparr>))) of
         None \<Rightarrow> False
       | Some m \<Rightarrow> map fst (cache m) = [''ez:k''])
   \<and> memory (snd (fetch cfg_prod_memory ''k'' (constant_producer (JNum 42)) gated
                     (w_first\<lparr>wio := advance 59995 (wio w_first)\<rparr>)))
       = Some (empty_store 1000)
   \<and> pcalls (snd (fetch cfg_prod_memory ''k'' (constant_producer (JNum 42)) gated
                     (w_first\<lparr>wio := advance 59995 (wio w_first)\<rparr>))) = 2"
  by (simp add: w_first_eq)
     (simp add: gated_def fetch_defs example_defs memory_defs make_room_below double_defs Let_def)

text \<open>
  Claim C3 as stated fails where it says that a miss metric is recorded. In cache mode
  DISABLED \<^verbatim>\<open>fetch\<close> returns \<^verbatim>\<open>await fetcher()\<close> before it looks at the traffic or the
  metrics: with traffic detection and metrics enabled, the first request for a key
  returns the produced value and the miss counter stays 0. With metrics disabled (as
  in development) there is no metrics component, and nothing is recorded either.
\<close>

theorem cold_key_miss_not_recorded_counterexample:
  "ENABLE_TRAFFIC_DETECTION cfg_prod_disabled
   \<and> ENABLE_METRICS cfg_prod_disabled
   \<and> CACHE_MODE cfg_prod_disabled = DISABLED
   \<and> \<not> forceCaching (parse_options cfg_prod_disabled NoOptions)
   \<and> int (fst (track cfg_prod_disabled 1000 ''k'' \<lparr>requests = [], lastGlobalCleanup = 1000\<rparr>))
       < effective_threshold cfg_prod_disabled
           (Some (minTrafficCount (parse_options cfg_prod_disabled NoOptions)))
   \<and> fst (fetch cfg_prod_disabled ''k'' (constant_producer (JNum 42)) NoOptions w_disabled)
       = Inr (JNum 42)
   \<and> pcalls (snd (fetch cfg_prod_disabled ''k'' (constant_producer (JNum 42)) NoOptions
                     w_disabled)) = 1
   \<and> metrics (snd (fetch cfg_prod_disabled ''k'' (constant_producer (JNum 42)) NoOptions
                      w_disabled)) = Some no_metrics
   \<and> misses no_metrics = 0
   \<and> ENABLE_TRAFFIC_DETECTION cfg_dev_conservative
   \<and> \<not> ENABLE_METRICS cfg_dev_conservative
   \<and> CACHE_MODE cfg_dev_conservative = MEMORY_ONLY
   \<and> \<not> forceCaching (parse_options cfg_dev_conservative NoOptions)
   \<and> int (fst (track cfg_dev_conservative 1000 ''k'' \<lparr>requests = [], lastGlobalCleanup = 1000\<rparr>))
       < effective_threshold cfg_dev_conservative
           (Some (minTrafficCount (parse_options cfg_dev_conservative NoOptions)))
   \<and> fst (fetch cfg_dev_conservative ''k'' (constant_producer (JNum 42)) NoOptions
            w_development) = Inr (JNum 42)
   \<and> pcalls (snd (fetch cfg_dev_conservative ''k'' (constant_producer (JNum 42)) NoOptions
                     w_development)) = 1
   \<and> metrics (snd (fetch cfg_dev_conservative ''k'' (constant_producer (JNum 42)) NoOptions
                      w_development)) = None"
  by (simp add: fetch_defs cfg_prod_disabled_def cfg_prod_memory_def cfg_dev_conservative_def
      w_disabled_def w_development_def no_metrics_def empty_store_def constant_producer_def
      Let_def)

text \<open>An instance: the first request for a key under the production threshold of 100.\<close>

theorem cold_key_bypasses_cache_witness:
  "fst (fetch cfg_prod_memory ''k'' (constant_producer (JNum 42)) NoOptions w_memory)
     = Inr (JNum 42)
   \<and> pcalls (snd (fetch cfg_prod_memory ''k'' (constant_producer (JNum 42)) NoOptions w_memory)) = 1
   \<and> memory (snd (fetch cfg_prod_memory ''k'' (constant_producer (JNum 42)) NoOptions w_memory))
       = Some (empty_store 1000)
   \<and> sent (wio (snd (fetch cfg_prod_memory ''k'' (constant_producer (JNum 42)) NoOptions
                        w_memory))) = []
   \<and> (\<exists>pm'. metrics (snd (fetch cfg_prod_memory ''k'' (constant_producer (JNum 42)) NoOptions
                              w_memory)) = Some pm'
            \<and> misses pm' = 1)"
proof -
  let ?p = "constant_producer (JNum 42)"
  let ?tr = "\<lparr>requests = [], lastGlobalCleanup = 1000\<rparr>"
  have detect: "ENABLE_TRAFFIC_DETECTION cfg_prod_memory" "traffic w_memory = Some ?tr"
    by (simp_all add: example_defs)
  have unforced: "\<not> forceCaching (parse_options cfg_prod_memory NoOptions)"
    by (simp add: parse_options_def)
  have cold: "int (fst (track cfg_prod_memory (clock (wio w_memory)) ''k'' ?tr))
                < effective_threshold cfg_prod_memory
                    (Some (minTrafficCount (parse_options cfg_prod_memory NoOptions)))"
    by (simp add: fetch_defs example_defs Let_def)
  have p: "?p (pcalls w_memory) = (5, Inr (JNum 42))" by (simp add: constant_producer_def)
  have cfg: "CACHE_MODE cfg_prod_memory \<noteq> DISABLED \<and> ENABLE_METRICS cfg_prod_memory"
    by (simp add: CACHE_MODE_def example_defs)
  have w: "metrics w_memory = Some no_metrics" "misses no_metrics = 0" "pcalls w_memory = 0"
    "memory w_memory = Some (empty_store 1000)" "sent (wio w_memory) = []"
    by (simp_all add: example_defs)
  from cold_key_bypasses_cache[OF detect unforced cold, of ?p] p cfg w
  show ?thesis by simp
qed

end
